theory Spec2Isabelle
  imports Main "HOL-Library.Word"
begin

section \<open>The DisasterRelief contract of smart-contracts/BlockAidToken.sol\<close>

text \<open>
  The ledger of the repository is the Solidity contract \<open>DisasterRelief\<close>. Its storage is
  a record, every external function is a function from the storage before the call to
  either a revert reason or the storage after it, and a transaction that reverts leaves
  the storage as it was (\<open>apply_call\<close>). Solidity 0.8 checks \<open>uint256\<close> arithmetic: an
  overflowing \<open>+\<close>, \<open>++\<close> or \<open>+=\<close> reverts with \<open>Panic(0x11)\<close>, which is \<open>checked_add\<close>.
\<close>

subsection \<open>Types\<close>

type_synonym uint256 = "256 word"
type_synonym address = "160 word"

datatype DisasterType = FLOOD | EARTHQUAKE | CYCLONE | LANDSLIDE
datatype SeverityLevel = LOW | MEDIUM | HIGH
datatype FundStatus = PENDING | APPROVED | DISTRIBUTED | REJECTED

text \<open>
  Field names are the source's. Where two structs share a field name the later struct's
  field carries a prefix (\<open>tx_\<close> for FundTransaction, \<open>fund_\<close> for DisasterFund). A parameter
  written \<open>_name\<close> in the source is \<open>name'\<close> here, and so is a local variable whose
  name is also a field's.
\<close>

record DisasterEvent =
  eventId :: uint256
  disasterType :: DisasterType
  location :: string
  timestamp :: uint256
  imageHash :: string
  severityScore :: uint256
  severityLevel :: SeverityLevel
  reportedBy :: address
  isVerified :: bool
  estimatedAffected :: uint256
  infrastructureDamage :: uint256
  impactArea :: uint256

record FundTransaction =
  transactionId :: uint256
  tx_eventId :: uint256
  donor :: address
  amount :: uint256
  tx_timestamp :: uint256
  tx_status :: FundStatus
  purpose :: string
  isBlockchainVerified :: bool

record DisasterFund =
  fundId :: uint256
  fund_eventId :: uint256
  totalAmount :: uint256
  distributedAmount :: uint256
  createdAt :: uint256
  approvedBy :: address
  fund_status :: FundStatus

text \<open>
  The events of the contract, in the order of their declarations, and after them the
  event that \<open>Ownable\<close> emits at every change of owner (previous owner, new owner).
\<close>

datatype log_entry =
  DisasterEventCreated uint256 DisasterType string uint256 address
| DisasterEventVerified uint256 bool
| FundDonated uint256 uint256 address uint256
| FundApproved uint256 uint256 uint256 address
| FundDistributed uint256 uint256 uint256
| OwnershipTransferred address address

text \<open>
  A revert carries the reason string of the failing \<open>require\<close>; \<open>Panic\<close> carries the
  panic code of a failed checked operation; \<open>TransferFailed\<close> is the revert of
  \<open>_recipient.transfer\<close> when the recipient does not take the payment.
\<close>

datatype error = Revert string | Panic nat | TransferFailed

text \<open>
  The storage. \<open>owner\<close> is the owner of \<open>Ownable\<close>, \<open>entered\<close> is the flag of
  \<open>ReentrancyGuard\<close>, \<open>self\<close> is \<open>address(this)\<close> and \<open>balance\<close> is
  \<open>address(this).balance\<close>. A Solidity mapping is total: a key never written reads as
  the zero value of the value type. \<open>emitted\<close> is the log of emitted events, which a
  revert discards with the storage writes.
\<close>

record state =
  owner :: address
  entered :: bool
  self :: address
  balance :: uint256
  eventCounter :: uint256
  transactionCounter :: uint256
  fundCounter :: uint256
  disasterEvents :: "uint256 \<Rightarrow> DisasterEvent"
  fundTransactions :: "uint256 \<Rightarrow> FundTransaction"
  disasterFunds :: "uint256 \<Rightarrow> DisasterFund"
  processedImageHashes :: "string \<Rightarrow> bool"
  authorizedOfficials :: "address \<Rightarrow> bool"
  allEventIds :: "uint256 list"
  allTransactionIds :: "uint256 list"
  emitted :: "log_entry list"

text \<open>
  What a call sees of its transaction: \<open>msg.sender\<close>, \<open>block.timestamp\<close>, and which
  addresses take a payment sent with \<open>transfer\<close> (an externally owned account does; a
  contract does only when it has a payable receive function that runs in the stipend).
\<close>

record env =
  sender :: address
  block_timestamp :: uint256
  accepts :: "address \<Rightarrow> bool"

subsection \<open>Zero values and checked arithmetic\<close>

definition zero_event :: DisasterEvent where
  "zero_event = \<lparr>eventId = 0, disasterType = FLOOD, location = [], timestamp = 0,
     imageHash = [], severityScore = 0, severityLevel = LOW, reportedBy = 0,
     isVerified = False, estimatedAffected = 0, infrastructureDamage = 0, impactArea = 0\<rparr>"

definition zero_transaction :: FundTransaction where
  "zero_transaction = \<lparr>transactionId = 0, tx_eventId = 0, donor = 0, amount = 0,
     tx_timestamp = 0, tx_status = PENDING, purpose = [], isBlockchainVerified = False\<rparr>"

definition zero_fund :: DisasterFund where
  "zero_fund = \<lparr>fundId = 0, fund_eventId = 0, totalAmount = 0, distributedAmount = 0,
     createdAt = 0, approvedBy = 0, fund_status = PENDING\<rparr>"

definition checked_add :: "uint256 \<Rightarrow> uint256 \<Rightarrow> error + uint256" where
  "checked_add a b = (if unat a + unat b < 2 ^ 256 then Inr (a + b) else Inl (Panic 17))"

subsection \<open>Modifiers\<close>

definition onlyAuthorized :: "env \<Rightarrow> state \<Rightarrow> bool" where
  "onlyAuthorized e s \<longleftrightarrow> sender e = owner s \<or> authorizedOfficials s (sender e)"

definition eventExists :: "uint256 \<Rightarrow> state \<Rightarrow> bool" where
  "eventExists eventId' s \<longleftrightarrow> eventId' > 0 \<and> eventId' \<le> eventCounter s"

definition fundExists :: "uint256 \<Rightarrow> state \<Rightarrow> bool" where
  "fundExists fundId' s \<longleftrightarrow> fundId' > 0 \<and> fundId' \<le> fundCounter s"

definition onlyOwner :: "env \<Rightarrow> state \<Rightarrow> bool" where
  "onlyOwner e s \<longleftrightarrow> owner s = sender e"

subsection \<open>Constructor and admin functions\<close>

text \<open>
  Deployment: \<open>Ownable\<close> makes the deployer the owner and logs the change from the zero
  address, the guard starts free, the constructor authorizes the deployer, and
  everything else is zero. The address of the new contract and the balance it already
  holds are given.
\<close>

definition constructor :: "address \<Rightarrow> address \<Rightarrow> uint256 \<Rightarrow> state" where
  "constructor deployer this bal =
     \<lparr>owner = deployer, entered = False, self = this, balance = bal,
      eventCounter = 0, transactionCounter = 0, fundCounter = 0,
      disasterEvents = (\<lambda>_. zero_event),
      fundTransactions = (\<lambda>_. zero_transaction),
      disasterFunds = (\<lambda>_. zero_fund),
      processedImageHashes = (\<lambda>_. False),
      authorizedOfficials = (\<lambda>_. False)(deployer := True),
      allEventIds = [], allTransactionIds = [],
      emitted = [OwnershipTransferred 0 deployer]\<rparr>"

definition addAuthorizedOfficial :: "env \<Rightarrow> address \<Rightarrow> state \<Rightarrow> error + state" where
  "addAuthorizedOfficial e official' s =
     (if \<not> onlyOwner e s then Inl (Revert ''Ownable: caller is not the owner'')
      else Inr (s\<lparr>authorizedOfficials := (authorizedOfficials s)(official' := True)\<rparr>))"

definition removeAuthorizedOfficial :: "env \<Rightarrow> address \<Rightarrow> state \<Rightarrow> error + state" where
  "removeAuthorizedOfficial e official' s =
     (if \<not> onlyOwner e s then Inl (Revert ''Ownable: caller is not the owner'')
      else Inr (s\<lparr>authorizedOfficials := (authorizedOfficials s)(official' := False)\<rparr>))"

text \<open>
  The two functions every \<open>Ownable\<close> contract inherits; each logs the change of owner.
\<close>

definition transferOwnership :: "env \<Rightarrow> address \<Rightarrow> state \<Rightarrow> error + state" where
  "transferOwnership e newOwner s =
     (if \<not> onlyOwner e s then Inl (Revert ''Ownable: caller is not the owner'')
      else if newOwner = 0 then Inl (Revert ''Ownable: new owner is the zero address'')
      else Inr (s\<lparr>owner := newOwner,
                emitted := emitted s @ [OwnershipTransferred (owner s) newOwner]\<rparr>))"

definition renounceOwnership :: "env \<Rightarrow> state \<Rightarrow> error + state" where
  "renounceOwnership e s =
     (if \<not> onlyOwner e s then Inl (Revert ''Ownable: caller is not the owner'')
      else Inr (s\<lparr>owner := 0, emitted := emitted s @ [OwnershipTransferred (owner s) 0]\<rparr>))"

subsection \<open>Core functions\<close>

definition getSeverityLevel :: "uint256 \<Rightarrow> SeverityLevel" where
  "getSeverityLevel score' =
     (if score' \<le> 40 then LOW
      else if score' \<le> 70 then MEDIUM
      else HIGH)"

definition createDisasterEvent ::
  "env \<Rightarrow> DisasterType \<Rightarrow> string \<Rightarrow> string \<Rightarrow> uint256 \<Rightarrow> uint256 \<Rightarrow> uint256 \<Rightarrow> uint256
     \<Rightarrow> state \<Rightarrow> error + (uint256 \<times> state)" where
  "createDisasterEvent e type' location' imageHash' severityScore' affectedPopulation'
       infrastructureDamage' impactArea' s =
     (if \<not> onlyAuthorized e s then Inl (Revert ''Not authorized'')
      else if \<not> (severityScore' \<ge> 0 \<and> severityScore' \<le> 100)
        then Inl (Revert ''Invalid severity score'')
      else if processedImageHashes s imageHash' then Inl (Revert ''Image already processed'')
      else case checked_add (eventCounter s) 1 of
        Inl err \<Rightarrow> Inl err
      | Inr n \<Rightarrow>
          let s1 = s\<lparr>eventCounter := n\<rparr>;
              eventId' = eventCounter s1;
              level = getSeverityLevel severityScore';
              s2 = s1\<lparr>disasterEvents := (disasterEvents s1)(eventId' :=
                     \<lparr>eventId = eventId', disasterType = type', location = location',
                      timestamp = block_timestamp e, imageHash = imageHash',
                      severityScore = severityScore', severityLevel = level,
                      reportedBy = sender e, isVerified = False,
                      estimatedAffected = affectedPopulation',
                      infrastructureDamage = infrastructureDamage',
                      impactArea = impactArea'\<rparr>)\<rparr>;
              s3 = s2\<lparr>processedImageHashes := (processedImageHashes s2)(imageHash' := True)\<rparr>;
              s4 = s3\<lparr>allEventIds := allEventIds s3 @ [eventId']\<rparr>;
              s5 = s4\<lparr>emitted := emitted s4 @
                     [DisasterEventCreated eventId' type' location' severityScore' (sender e)]\<rparr>
          in Inr (eventId', s5))"

definition verifyDisasterEvent :: "env \<Rightarrow> uint256 \<Rightarrow> state \<Rightarrow> error + state" where
  "verifyDisasterEvent e eventId' s =
     (if \<not> onlyAuthorized e s then Inl (Revert ''Not authorized'')
      else if \<not> eventExists eventId' s then Inl (Revert ''Event does not exist'')
      else if isVerified (disasterEvents s eventId') then Inl (Revert ''Already verified'')
      else
        let s1 = s\<lparr>disasterEvents := (disasterEvents s)(eventId' :=
                   (disasterEvents s eventId')\<lparr>isVerified := True\<rparr>)\<rparr>;
            s2 = s1\<lparr>emitted := emitted s1 @ [DisasterEventVerified eventId' True]\<rparr>
        in Inr s2)"

text \<open>
  \<open>donateToEvent\<close> is payable: \<open>msg_value\<close> is \<open>msg.value\<close>, credited to the contract
  before the body runs (on chain the sum stays below \<open>2^256\<close>, the supply being far
  smaller; here it is word addition, and no property below depends on it). Its modifiers
  run in the order written, \<open>eventExists\<close> before \<open>nonReentrant\<close>.
\<close>

definition donateToEvent :: "env \<Rightarrow> uint256 \<Rightarrow> string \<Rightarrow> uint256 \<Rightarrow> state \<Rightarrow> error + state" where
  "donateToEvent e eventId' purpose' msg_value s =
     (let s0 = s\<lparr>balance := balance s + msg_value\<rparr> in
      if \<not> eventExists eventId' s0 then Inl (Revert ''Event does not exist'')
      else if entered s0 then Inl (Revert ''ReentrancyGuard: reentrant call'')
      else
        let s1 = s0\<lparr>entered := True\<rparr> in
        if \<not> msg_value > 0 then Inl (Revert ''Donation must be greater than 0'')
        else if \<not> isVerified (disasterEvents s1 eventId') then Inl (Revert ''Event not verified'')
        else case checked_add (transactionCounter s1) 1 of
          Inl err \<Rightarrow> Inl err
        | Inr n \<Rightarrow>
            let s2 = s1\<lparr>transactionCounter := n\<rparr>;
                transactionId' = transactionCounter s2;
                s3 = s2\<lparr>fundTransactions := (fundTransactions s2)(transactionId' :=
                       \<lparr>transactionId = transactionId', tx_eventId = eventId',
                        donor = sender e, amount = msg_value,
                        tx_timestamp = block_timestamp e, tx_status = PENDING,
                        purpose = purpose', isBlockchainVerified = True\<rparr>)\<rparr>;
                s4 = s3\<lparr>allTransactionIds := allTransactionIds s3 @ [transactionId']\<rparr>;
                s5 = s4\<lparr>emitted := emitted s4 @
                       [FundDonated transactionId' eventId' (sender e) msg_value]\<rparr>
            in Inr (s5\<lparr>entered := False\<rparr>))"

definition createAndApproveFund :: "env \<Rightarrow> uint256 \<Rightarrow> uint256 \<Rightarrow> state \<Rightarrow> error + state" where
  "createAndApproveFund e eventId' amount' s =
     (if \<not> onlyAuthorized e s then Inl (Revert ''Not authorized'')
      else if \<not> eventExists eventId' s then Inl (Revert ''Event does not exist'')
      else if \<not> amount' > 0 then Inl (Revert ''Amount must be greater than 0'')
      else if \<not> isVerified (disasterEvents s eventId') then Inl (Revert ''Event not verified'')
      else case checked_add (fundCounter s) 1 of
        Inl err \<Rightarrow> Inl err
      | Inr n \<Rightarrow>
          let s1 = s\<lparr>fundCounter := n\<rparr>;
              fundId' = fundCounter s1;
              s2 = s1\<lparr>disasterFunds := (disasterFunds s1)(fundId' :=
                     \<lparr>fundId = fundId', fund_eventId = eventId', totalAmount = amount',
                      distributedAmount = 0, createdAt = block_timestamp e,
                      approvedBy = sender e, fund_status = APPROVED\<rparr>)\<rparr>;
              s3 = s2\<lparr>emitted := emitted s2 @ [FundApproved fundId' eventId' amount' (sender e)]\<rparr>
          in Inr s3)"

text \<open>
  \<open>_recipient.transfer(_amount)\<close> moves the amount out of the contract, unless the
  recipient is the contract itself, whose empty payable \<open>receive\<close> takes it back; it
  reverts when the recipient does not accept the payment.
\<close>

definition transfer :: "env \<Rightarrow> address \<Rightarrow> uint256 \<Rightarrow> state \<Rightarrow> error + state" where
  "transfer e recipient' amount' s =
     (if recipient' = self s then Inr s
      else if \<not> accepts e recipient' then Inl TransferFailed
      else Inr (s\<lparr>balance := balance s - amount'\<rparr>))"

definition distributeFund :: "env \<Rightarrow> uint256 \<Rightarrow> address \<Rightarrow> uint256 \<Rightarrow> state \<Rightarrow> error + state" where
  "distributeFund e fundId' recipient' amount' s =
     (if \<not> onlyAuthorized e s then Inl (Revert ''Not authorized'')
      else if \<not> fundExists fundId' s then Inl (Revert ''Fund does not exist'')
      else if entered s then Inl (Revert ''ReentrancyGuard: reentrant call'')
      else
        let s1 = s\<lparr>entered := True\<rparr>;
            fund = disasterFunds s1 fundId' in
        if \<not> fund_status fund = APPROVED then Inl (Revert ''Fund not approved'')
        else case checked_add (distributedAmount fund) amount' of
          Inl err \<Rightarrow> Inl err
        | Inr requested \<Rightarrow>
            (if \<not> requested \<le> totalAmount fund then Inl (Revert ''Insufficient fund balance'')
             else if \<not> amount' \<le> balance s1 then Inl (Revert ''Insufficient contract balance'')
             else (case checked_add (distributedAmount fund) amount' of
               Inl err \<Rightarrow> Inl err
             | Inr d \<Rightarrow>
                 (let fund1 = fund\<lparr>distributedAmount := d\<rparr>;
                      fund2 = (if distributedAmount fund1 \<ge> totalAmount fund1
                               then fund1\<lparr>fund_status := DISTRIBUTED\<rparr> else fund1);
                      s2 = s1\<lparr>disasterFunds := (disasterFunds s1)(fundId' := fund2)\<rparr>
                  in (case transfer e recipient' amount' s2 of
                    Inl err \<Rightarrow> Inl err
                  | Inr s3 \<Rightarrow>
                      (let s4 = s3\<lparr>emitted := emitted s3 @
                                 [FundDistributed fundId' (fund_eventId fund2) amount']\<rparr>
                       in Inr (s4\<lparr>entered := False\<rparr>)))))))"

text \<open>\<open>receive() external payable {}\<close>: a plain payment to the contract.\<close>

definition receive :: "uint256 \<Rightarrow> state \<Rightarrow> error + state" where
  "receive msg_value s = Inr (s\<lparr>balance := balance s + msg_value\<rparr>)"

subsection \<open>Transactions\<close>

text \<open>
  The external entry points that write. Only the two payable ones carry a value: a call
  of any other function is made without one.
\<close>

datatype call =
  CreateDisasterEvent DisasterType string string uint256 uint256 uint256 uint256
| VerifyDisasterEvent uint256
| DonateToEvent uint256 string uint256
| CreateAndApproveFund uint256 uint256
| DistributeFund uint256 address uint256
| AddAuthorizedOfficial address
| RemoveAuthorizedOfficial address
| TransferOwnership address
| RenounceOwnership
| Receive uint256

fun exec :: "env \<Rightarrow> call \<Rightarrow> state \<Rightarrow> error + state" where
  "exec e (CreateDisasterEvent t l h sc p d a) s =
     (case createDisasterEvent e t l h sc p d a s of Inl err \<Rightarrow> Inl err | Inr (_, s') \<Rightarrow> Inr s')"
| "exec e (VerifyDisasterEvent i) s = verifyDisasterEvent e i s"
| "exec e (DonateToEvent i p v) s = donateToEvent e i p v s"
| "exec e (CreateAndApproveFund i a) s = createAndApproveFund e i a s"
| "exec e (DistributeFund f r a) s = distributeFund e f r a s"
| "exec e (AddAuthorizedOfficial a) s = addAuthorizedOfficial e a s"
| "exec e (RemoveAuthorizedOfficial a) s = removeAuthorizedOfficial e a s"
| "exec e (TransferOwnership a) s = transferOwnership e a s"
| "exec e RenounceOwnership s = renounceOwnership e s"
| "exec e (Receive v) s = receive v s"

text \<open>The storage after a transaction: a revert changes nothing.\<close>

definition apply_call :: "env \<Rightarrow> call \<Rightarrow> state \<Rightarrow> state" where
  "apply_call e c s = (case exec e c s of Inl _ \<Rightarrow> s | Inr s' \<Rightarrow> s')"

fun run :: "state \<Rightarrow> (env \<times> call) list \<Rightarrow> state" where
  "run s [] = s"
| "run s ((e, c) # cs) = run (apply_call e c s) cs"

inductive reachable :: "state \<Rightarrow> bool" where
  deployed: "reachable (constructor deployer this bal)"
| step: "reachable s \<Longrightarrow> reachable (apply_call e c s)"

subsection \<open>The storage a call leaves where it stops\<close>

text \<open>
  The functions once more, each returning with its result the storage as it is at the
  point where the call returns or is rejected, before the platform discards the writes
  of a reverted transaction. A rejection that comes after a write leaves that write in
  this storage; the functions above are these followed by the revert (lemma
  \<open>exec_body\<close>).
\<close>

definition addAuthorizedOfficial_body :: "env \<Rightarrow> address \<Rightarrow> state \<Rightarrow> error option \<times> state" where
  "addAuthorizedOfficial_body e official' s =
     (if \<not> onlyOwner e s then (Some (Revert ''Ownable: caller is not the owner''), s)
      else (None, s\<lparr>authorizedOfficials := (authorizedOfficials s)(official' := True)\<rparr>))"

definition removeAuthorizedOfficial_body :: "env \<Rightarrow> address \<Rightarrow> state \<Rightarrow> error option \<times> state" where
  "removeAuthorizedOfficial_body e official' s =
     (if \<not> onlyOwner e s then (Some (Revert ''Ownable: caller is not the owner''), s)
      else (None, s\<lparr>authorizedOfficials := (authorizedOfficials s)(official' := False)\<rparr>))"

definition transferOwnership_body :: "env \<Rightarrow> address \<Rightarrow> state \<Rightarrow> error option \<times> state" where
  "transferOwnership_body e newOwner s =
     (if \<not> onlyOwner e s then (Some (Revert ''Ownable: caller is not the owner''), s)
      else if newOwner = 0 then (Some (Revert ''Ownable: new owner is the zero address''), s)
      else (None, s\<lparr>owner := newOwner,
                   emitted := emitted s @ [OwnershipTransferred (owner s) newOwner]\<rparr>))"

definition renounceOwnership_body :: "env \<Rightarrow> state \<Rightarrow> error option \<times> state" where
  "renounceOwnership_body e s =
     (if \<not> onlyOwner e s then (Some (Revert ''Ownable: caller is not the owner''), s)
      else (None, s\<lparr>owner := 0, emitted := emitted s @ [OwnershipTransferred (owner s) 0]\<rparr>))"

definition createDisasterEvent_body ::
  "env \<Rightarrow> DisasterType \<Rightarrow> string \<Rightarrow> string \<Rightarrow> uint256 \<Rightarrow> uint256 \<Rightarrow> uint256 \<Rightarrow> uint256
     \<Rightarrow> state \<Rightarrow> (error + uint256) \<times> state" where
  "createDisasterEvent_body e type' location' imageHash' severityScore' affectedPopulation'
       infrastructureDamage' impactArea' s =
     (if \<not> onlyAuthorized e s then (Inl (Revert ''Not authorized''), s)
      else if \<not> (severityScore' \<ge> 0 \<and> severityScore' \<le> 100)
        then (Inl (Revert ''Invalid severity score''), s)
      else if processedImageHashes s imageHash'
        then (Inl (Revert ''Image already processed''), s)
      else case checked_add (eventCounter s) 1 of
        Inl err \<Rightarrow> (Inl err, s)
      | Inr n \<Rightarrow>
          let s1 = s\<lparr>eventCounter := n\<rparr>;
              eventId' = eventCounter s1;
              level = getSeverityLevel severityScore';
              s2 = s1\<lparr>disasterEvents := (disasterEvents s1)(eventId' :=
                     \<lparr>eventId = eventId', disasterType = type', location = location',
                      timestamp = block_timestamp e, imageHash = imageHash',
                      severityScore = severityScore', severityLevel = level,
                      reportedBy = sender e, isVerified = False,
                      estimatedAffected = affectedPopulation',
                      infrastructureDamage = infrastructureDamage',
                      impactArea = impactArea'\<rparr>)\<rparr>;
              s3 = s2\<lparr>processedImageHashes := (processedImageHashes s2)(imageHash' := True)\<rparr>;
              s4 = s3\<lparr>allEventIds := allEventIds s3 @ [eventId']\<rparr>;
              s5 = s4\<lparr>emitted := emitted s4 @
                     [DisasterEventCreated eventId' type' location' severityScore' (sender e)]\<rparr>
          in (Inr eventId', s5))"

definition verifyDisasterEvent_body :: "env \<Rightarrow> uint256 \<Rightarrow> state \<Rightarrow> error option \<times> state" where
  "verifyDisasterEvent_body e eventId' s =
     (if \<not> onlyAuthorized e s then (Some (Revert ''Not authorized''), s)
      else if \<not> eventExists eventId' s then (Some (Revert ''Event does not exist''), s)
      else if isVerified (disasterEvents s eventId') then (Some (Revert ''Already verified''), s)
      else
        let s1 = s\<lparr>disasterEvents := (disasterEvents s)(eventId' :=
                   (disasterEvents s eventId')\<lparr>isVerified := True\<rparr>)\<rparr>;
            s2 = s1\<lparr>emitted := emitted s1 @ [DisasterEventVerified eventId' True]\<rparr>
        in (None, s2))"

definition donateToEvent_body ::
  "env \<Rightarrow> uint256 \<Rightarrow> string \<Rightarrow> uint256 \<Rightarrow> state \<Rightarrow> error option \<times> state" where
  "donateToEvent_body e eventId' purpose' msg_value s =
     (let s0 = s\<lparr>balance := balance s + msg_value\<rparr> in
      if \<not> eventExists eventId' s0 then (Some (Revert ''Event does not exist''), s0)
      else if entered s0 then (Some (Revert ''ReentrancyGuard: reentrant call''), s0)
      else
        let s1 = s0\<lparr>entered := True\<rparr> in
        if \<not> msg_value > 0 then (Some (Revert ''Donation must be greater than 0''), s1)
        else if \<not> isVerified (disasterEvents s1 eventId')
          then (Some (Revert ''Event not verified''), s1)
        else case checked_add (transactionCounter s1) 1 of
          Inl err \<Rightarrow> (Some err, s1)
        | Inr n \<Rightarrow>
            let s2 = s1\<lparr>transactionCounter := n\<rparr>;
                transactionId' = transactionCounter s2;
                s3 = s2\<lparr>fundTransactions := (fundTransactions s2)(transactionId' :=
                       \<lparr>transactionId = transactionId', tx_eventId = eventId',
                        donor = sender e, amount = msg_value,
                        tx_timestamp = block_timestamp e, tx_status = PENDING,
                        purpose = purpose', isBlockchainVerified = True\<rparr>)\<rparr>;
                s4 = s3\<lparr>allTransactionIds := allTransactionIds s3 @ [transactionId']\<rparr>;
                s5 = s4\<lparr>emitted := emitted s4 @
                       [FundDonated transactionId' eventId' (sender e) msg_value]\<rparr>
            in (None, s5\<lparr>entered := False\<rparr>))"

definition createAndApproveFund_body ::
  "env \<Rightarrow> uint256 \<Rightarrow> uint256 \<Rightarrow> state \<Rightarrow> error option \<times> state" where
  "createAndApproveFund_body e eventId' amount' s =
     (if \<not> onlyAuthorized e s then (Some (Revert ''Not authorized''), s)
      else if \<not> eventExists eventId' s then (Some (Revert ''Event does not exist''), s)
      else if \<not> amount' > 0 then (Some (Revert ''Amount must be greater than 0''), s)
      else if \<not> isVerified (disasterEvents s eventId')
        then (Some (Revert ''Event not verified''), s)
      else case checked_add (fundCounter s) 1 of
        Inl err \<Rightarrow> (Some err, s)
      | Inr n \<Rightarrow>
          let s1 = s\<lparr>fundCounter := n\<rparr>;
              fundId' = fundCounter s1;
              s2 = s1\<lparr>disasterFunds := (disasterFunds s1)(fundId' :=
                     \<lparr>fundId = fundId', fund_eventId = eventId', totalAmount = amount',
                      distributedAmount = 0, createdAt = block_timestamp e,
                      approvedBy = sender e, fund_status = APPROVED\<rparr>)\<rparr>;
              s3 = s2\<lparr>emitted := emitted s2 @ [FundApproved fundId' eventId' amount' (sender e)]\<rparr>
          in (None, s3))"

definition distributeFund_body ::
  "env \<Rightarrow> uint256 \<Rightarrow> address \<Rightarrow> uint256 \<Rightarrow> state \<Rightarrow> error option \<times> state" where
  "distributeFund_body e fundId' recipient' amount' s =
     (if \<not> onlyAuthorized e s then (Some (Revert ''Not authorized''), s)
      else if \<not> fundExists fundId' s then (Some (Revert ''Fund does not exist''), s)
      else if entered s then (Some (Revert ''ReentrancyGuard: reentrant call''), s)
      else
        let s1 = s\<lparr>entered := True\<rparr>;
            fund = disasterFunds s1 fundId' in
        if \<not> fund_status fund = APPROVED then (Some (Revert ''Fund not approved''), s1)
        else case checked_add (distributedAmount fund) amount' of
          Inl err \<Rightarrow> (Some err, s1)
        | Inr requested \<Rightarrow>
            (if \<not> requested \<le> totalAmount fund
               then (Some (Revert ''Insufficient fund balance''), s1)
             else if \<not> amount' \<le> balance s1
               then (Some (Revert ''Insufficient contract balance''), s1)
             else (case checked_add (distributedAmount fund) amount' of
               Inl err \<Rightarrow> (Some err, s1)
             | Inr d \<Rightarrow>
                 (let fund1 = fund\<lparr>distributedAmount := d\<rparr>;
                      fund2 = (if distributedAmount fund1 \<ge> totalAmount fund1
                               then fund1\<lparr>fund_status := DISTRIBUTED\<rparr> else fund1);
                      s2 = s1\<lparr>disasterFunds := (disasterFunds s1)(fundId' := fund2)\<rparr>
                  in (case transfer e recipient' amount' s2 of
                    Inl err \<Rightarrow> (Some err, s2)
                  | Inr s3 \<Rightarrow>
                      (let s4 = s3\<lparr>emitted := emitted s3 @
                                 [FundDistributed fundId' (fund_eventId fund2) amount']\<rparr>
                       in (None, s4\<lparr>entered := False\<rparr>)))))))"

fun body :: "env \<Rightarrow> call \<Rightarrow> state \<Rightarrow> error option \<times> state" where
  "body e (CreateDisasterEvent t l h sc p d a) s =
     (case createDisasterEvent_body e t l h sc p d a s of
        (Inl err, s') \<Rightarrow> (Some err, s') | (Inr _, s') \<Rightarrow> (None, s'))"
| "body e (VerifyDisasterEvent i) s = verifyDisasterEvent_body e i s"
| "body e (DonateToEvent i p v) s = donateToEvent_body e i p v s"
| "body e (CreateAndApproveFund i a) s = createAndApproveFund_body e i a s"
| "body e (DistributeFund f r a) s = distributeFund_body e f r a s"
| "body e (AddAuthorizedOfficial a) s = addAuthorizedOfficial_body e a s"
| "body e (RemoveAuthorizedOfficial a) s = removeAuthorizedOfficial_body e a s"
| "body e (TransferOwnership a) s = transferOwnership_body e a s"
| "body e RenounceOwnership s = renounceOwnership_body e s"
| "body e (Receive v) s = (None, s\<lparr>balance := balance s + v\<rparr>)"

text \<open>The revert: an error discards the storage the call has left.\<close>

definition outcome :: "error option \<times> state \<Rightarrow> error + state" where
  "outcome r = (case r of (Some err, _) \<Rightarrow> Inl err | (None, s') \<Rightarrow> Inr s')"

subsection \<open>Invariants of the storage\<close>

text \<open>
  The pool after a distribution of \<open>a\<close> that \<open>distributeFund\<close> has accepted: the amount
  is added, and the status moves to DISTRIBUTED when the total is reached.
\<close>

definition distributed_fund :: "DisasterFund \<Rightarrow> uint256 \<Rightarrow> DisasterFund" where
  "distributed_fund F a =
     (if totalAmount F \<le> distributedAmount F + a
      then F\<lparr>distributedAmount := distributedAmount F + a, fund_status := DISTRIBUTED\<rparr>
      else F\<lparr>distributedAmount := distributedAmount F + a\<rparr>)"

text \<open>
  What holds of every storage the contract can get into. A fund id at most the fund
  counter names a pool with a positive total, a distributed amount within it, and status
  APPROVED or DISTRIBUTED, the latter exactly when all of the total is distributed; an
  event id at most the event counter names a record whose level is the level of its
  score and whose fingerprint is marked processed; fingerprints are unique across
  events and every processed fingerprint is some event's; a transaction id at most the
  transaction counter names a PENDING, ledger-verified donation of a positive amount to a
  verified event. Slots beyond the counters hold zero values, and the reentrancy guard
  is free between transactions.
\<close>

definition fund_ok :: "DisasterFund \<Rightarrow> bool" where
  "fund_ok F \<longleftrightarrow> 0 < totalAmount F \<and> distributedAmount F \<le> totalAmount F
     \<and> (fund_status F = APPROVED \<or> fund_status F = DISTRIBUTED)
     \<and> (fund_status F = DISTRIBUTED \<longleftrightarrow> distributedAmount F = totalAmount F)"

definition fund_slot_ok :: "state \<Rightarrow> uint256 \<Rightarrow> bool" where
  "fund_slot_ok s f \<longleftrightarrow>
     (if fundExists f s then fund_ok (disasterFunds s f) else disasterFunds s f = zero_fund)"

definition event_slot_ok :: "state \<Rightarrow> uint256 \<Rightarrow> bool" where
  "event_slot_ok s i \<longleftrightarrow>
     (if eventExists i s
      then eventId (disasterEvents s i) = i
         \<and> severityScore (disasterEvents s i) \<le> 100
         \<and> severityLevel (disasterEvents s i) = getSeverityLevel (severityScore (disasterEvents s i))
         \<and> processedImageHashes s (imageHash (disasterEvents s i))
      else disasterEvents s i = zero_event)"

definition hashes_unique :: "state \<Rightarrow> bool" where
  "hashes_unique s \<longleftrightarrow>
     (\<forall>i j. eventExists i s \<longrightarrow> eventExists j s \<longrightarrow>
        imageHash (disasterEvents s i) = imageHash (disasterEvents s j) \<longrightarrow> i = j)"

definition hashes_owned :: "state \<Rightarrow> bool" where
  "hashes_owned s \<longleftrightarrow>
     (\<forall>h. processedImageHashes s h \<longrightarrow>
        (\<exists>i. eventExists i s \<and> imageHash (disasterEvents s i) = h))"

definition transactionExists :: "uint256 \<Rightarrow> state \<Rightarrow> bool" where
  "transactionExists t s \<longleftrightarrow> t > 0 \<and> t \<le> transactionCounter s"

definition transaction_slot_ok :: "state \<Rightarrow> uint256 \<Rightarrow> bool" where
  "transaction_slot_ok s t \<longleftrightarrow>
     (if transactionExists t s
      then transactionId (fundTransactions s t) = t
         \<and> 0 < amount (fundTransactions s t)
         \<and> tx_status (fundTransactions s t) = PENDING
         \<and> isBlockchainVerified (fundTransactions s t)
         \<and> eventExists (tx_eventId (fundTransactions s t)) s
         \<and> isVerified (disasterEvents s (tx_eventId (fundTransactions s t)))
      else fundTransactions s t = zero_transaction)"

definition invariant :: "state \<Rightarrow> bool" where
  "invariant s \<longleftrightarrow> \<not> entered s \<and> (\<forall>f. fund_slot_ok s f) \<and> (\<forall>i. event_slot_ok s i)
     \<and> hashes_unique s \<and> hashes_owned s \<and> (\<forall>t. transaction_slot_ok s t)"

subsection \<open>A ledger in use\<close>

text \<open>
  The life of one relief fund, used to evaluate the functions on concrete inputs: the
  official (address 1) deploys the contract at address 99, reports a flood, verifies it
  and approves a fund of 100000; a donor (address 3) pays 100000 in; the official pays
  60000 and then 40000 out to address 7.
\<close>

definition by_official :: env where
  "by_official = \<lparr>sender = 1, block_timestamp = 1000, accepts = (\<lambda>_. True)\<rparr>"

definition by_donor :: env where
  "by_donor = \<lparr>sender = 3, block_timestamp = 2000, accepts = (\<lambda>_. True)\<rparr>"

text \<open>The official again, in a transaction in which address 7 refuses payments.\<close>

definition by_official_refused :: env where
  "by_official_refused = \<lparr>sender = 1, block_timestamp = 3000, accepts = (\<lambda>a. a \<noteq> 7)\<rparr>"

definition ledger_new :: state where
  "ledger_new = constructor 1 99 0"

definition ledger_reported :: state where
  "ledger_reported =
     apply_call by_official (CreateDisasterEvent FLOOD ''Kerala'' ''Qm01'' 65 10000 75 50) ledger_new"

definition ledger_verified :: state where
  "ledger_verified = apply_call by_official (VerifyDisasterEvent 1) ledger_reported"

definition ledger_approved :: state where
  "ledger_approved = apply_call by_official (CreateAndApproveFund 1 100000) ledger_verified"

definition ledger_funded :: state where
  "ledger_funded = apply_call by_donor (DonateToEvent 1 ''relief'' 100000) ledger_approved"

definition ledger_partial :: state where
  "ledger_partial = apply_call by_official (DistributeFund 1 7 60000) ledger_funded"

definition ledger_paid :: state where
  "ledger_paid = apply_call by_official (DistributeFund 1 7 40000) ledger_partial"

section \<open>Properties\<close>

subsection \<open>Checked arithmetic on 256-bit words\<close>

lemma checked_add_Inr: "checked_add a b = Inr c \<Longrightarrow> c = a + b \<and> unat c = unat a + unat b"
  by (auto simp: checked_add_def unat_add_lem[THEN iffD1] split: if_splits)

lemma checked_add_Inl: "checked_add a b = Inl err \<Longrightarrow> err = Panic 17 \<and> 2 ^ 256 \<le> unat a + unat b"
  by (auto simp: checked_add_def split: if_splits)

lemma unat_succ_word:
  fixes c :: uint256
  shows "unat c + 1 < 2 ^ 256 \<Longrightarrow> unat (c + 1) = unat c + 1"
  by (simp add: unat_add_lem[THEN iffD1])

lemma le_succ_word:
  fixes x c :: uint256
  assumes "unat c + 1 < 2 ^ 256"
  shows "x \<le> c + 1 \<longleftrightarrow> x \<le> c \<or> x = c + 1"
  using unat_succ_word[OF assms] by (auto simp: word_le_nat_alt word_unat_eq_iff)

lemma succ_not_le_word:
  fixes c :: uint256
  assumes "unat c + 1 < 2 ^ 256"
  shows "\<not> c + 1 \<le> c" and "0 < c + 1"
  using unat_succ_word[OF assms] by (auto simp: word_le_nat_alt word_less_nat_alt)

subsection \<open>What a successful call has checked and written\<close>

lemma createDisasterEvent_Inr:
  assumes "createDisasterEvent e t l h sc p d a s = Inr (i, s')"
  shows "onlyAuthorized e s \<and> sc \<le> 100 \<and> \<not> processedImageHashes s h
     \<and> unat (eventCounter s) + 1 < 2 ^ 256 \<and> i = eventCounter s + 1
     \<and> s' = s\<lparr>eventCounter := eventCounter s + 1,
            disasterEvents := (disasterEvents s)(eventCounter s + 1 :=
               \<lparr>eventId = eventCounter s + 1, disasterType = t, location = l,
                timestamp = block_timestamp e, imageHash = h, severityScore = sc,
                severityLevel = getSeverityLevel sc, reportedBy = sender e,
                isVerified = False, estimatedAffected = p, infrastructureDamage = d,
                impactArea = a\<rparr>),
            processedImageHashes := (processedImageHashes s)(h := True),
            allEventIds := allEventIds s @ [eventCounter s + 1],
            emitted := emitted s @ [DisasterEventCreated (eventCounter s + 1) t l sc (sender e)]\<rparr>"
  using assms
  by (auto simp: createDisasterEvent_def Let_def checked_add_def split: if_splits sum.splits)

lemma verifyDisasterEvent_Inr:
  assumes "verifyDisasterEvent e i s = Inr s'"
  shows "onlyAuthorized e s \<and> eventExists i s \<and> \<not> isVerified (disasterEvents s i)
     \<and> s' = s\<lparr>disasterEvents := (disasterEvents s)(i := (disasterEvents s i)\<lparr>isVerified := True\<rparr>),
            emitted := emitted s @ [DisasterEventVerified i True]\<rparr>"
  using assms
  by (auto simp: verifyDisasterEvent_def Let_def split: if_splits)

lemma donateToEvent_Inr:
  assumes "donateToEvent e i p v s = Inr s'"
  shows "eventExists i s \<and> \<not> entered s \<and> 0 < v \<and> isVerified (disasterEvents s i)
     \<and> unat (transactionCounter s) + 1 < 2 ^ 256
     \<and> s' = s\<lparr>entered := False, balance := balance s + v,
            transactionCounter := transactionCounter s + 1,
            fundTransactions := (fundTransactions s)(transactionCounter s + 1 :=
               \<lparr>transactionId = transactionCounter s + 1, tx_eventId = i,
                donor = sender e, amount = v, tx_timestamp = block_timestamp e,
                tx_status = PENDING, purpose = p, isBlockchainVerified = True\<rparr>),
            allTransactionIds := allTransactionIds s @ [transactionCounter s + 1],
            emitted := emitted s @ [FundDonated (transactionCounter s + 1) i (sender e) v]\<rparr>"
  using assms
  by (auto simp: donateToEvent_def Let_def checked_add_def eventExists_def
           split: if_splits sum.splits)

lemma createAndApproveFund_Inr:
  assumes "createAndApproveFund e i a s = Inr s'"
  shows "onlyAuthorized e s \<and> eventExists i s \<and> 0 < a \<and> isVerified (disasterEvents s i)
     \<and> unat (fundCounter s) + 1 < 2 ^ 256
     \<and> s' = s\<lparr>fundCounter := fundCounter s + 1,
            disasterFunds := (disasterFunds s)(fundCounter s + 1 :=
               \<lparr>fundId = fundCounter s + 1, fund_eventId = i, totalAmount = a,
                distributedAmount = 0, createdAt = block_timestamp e,
                approvedBy = sender e, fund_status = APPROVED\<rparr>),
            emitted := emitted s @ [FundApproved (fundCounter s + 1) i a (sender e)]\<rparr>"
  using assms
  by (auto simp: createAndApproveFund_def Let_def checked_add_def split: if_splits sum.splits)

lemma distributeFund_Inr:
  assumes "distributeFund e f r a s = Inr s'"
  shows "onlyAuthorized e s \<and> fundExists f s \<and> \<not> entered s
     \<and> fund_status (disasterFunds s f) = APPROVED
     \<and> unat (distributedAmount (disasterFunds s f)) + unat a \<le> unat (totalAmount (disasterFunds s f))
     \<and> a \<le> balance s \<and> (r = self s \<or> accepts e r)
     \<and> s' = s\<lparr>entered := False,
            balance := (if r = self s then balance s else balance s - a),
            disasterFunds := (disasterFunds s)(f := distributed_fund (disasterFunds s f) a),
            emitted := emitted s @ [FundDistributed f (fund_eventId (disasterFunds s f)) a]\<rparr>"
proof -
  from assms have pre: "onlyAuthorized e s" "fundExists f s" "\<not> entered s"
      "fund_status (disasterFunds s f) = APPROVED"
    by (auto simp: distributeFund_def Let_def split: if_splits)
  from assms pre obtain q where q: "checked_add (distributedAmount (disasterFunds s f)) a = Inr q"
    by (cases "checked_add (distributedAmount (disasterFunds s f)) a")
       (auto simp: distributeFund_def Let_def)
  note qq = checked_add_Inr[OF q]
  from assms pre q have le: "q \<le> totalAmount (disasterFunds s f)" "a \<le> balance s"
    by (auto simp: distributeFund_def Let_def split: if_splits)
  from assms pre q le have tr: "r = self s \<or> accepts e r"
    by (auto simp: distributeFund_def Let_def transfer_def split: if_splits)
  from le(1) qq have "unat (distributedAmount (disasterFunds s f)) + unat a
       \<le> unat (totalAmount (disasterFunds s f))"
    by (auto simp: word_le_nat_alt)
  moreover from assms pre q le tr qq have "s' = s\<lparr>entered := False,
            balance := (if r = self s then balance s else balance s - a),
            disasterFunds := (disasterFunds s)(f := distributed_fund (disasterFunds s f) a),
            emitted := emitted s @ [FundDistributed f (fund_eventId (disasterFunds s f)) a]\<rparr>"
    by (auto simp: distributeFund_def Let_def transfer_def distributed_fund_def split: if_splits)
  ultimately show ?thesis using pre le tr by simp
qed

lemma admin_Inr:
  "addAuthorizedOfficial e a s = Inr s' \<Longrightarrow>
     s' = s\<lparr>authorizedOfficials := (authorizedOfficials s)(a := True)\<rparr>"
  "removeAuthorizedOfficial e a s = Inr s' \<Longrightarrow>
     s' = s\<lparr>authorizedOfficials := (authorizedOfficials s)(a := False)\<rparr>"
  "transferOwnership e a s = Inr s' \<Longrightarrow>
     s' = s\<lparr>owner := a, emitted := emitted s @ [OwnershipTransferred (owner s) a]\<rparr>"
  "renounceOwnership e s = Inr s' \<Longrightarrow>
     s' = s\<lparr>owner := 0, emitted := emitted s @ [OwnershipTransferred (owner s) 0]\<rparr>"
  "receive v s = Inr s' \<Longrightarrow> s' = s\<lparr>balance := balance s + v\<rparr>"
  by (auto simp: addAuthorizedOfficial_def removeAuthorizedOfficial_def transferOwnership_def
        renounceOwnership_def receive_def split: if_splits)

subsection \<open>Every reachable storage satisfies the invariants\<close>

lemma invariantD:
  assumes "invariant s"
  shows "\<not> entered s" and "fund_slot_ok s f" and "event_slot_ok s i"
    and "hashes_unique s" and "hashes_owned s" and "transaction_slot_ok s t"
  using assms by (simp_all add: invariant_def)

lemma invariant_constructor: "invariant (constructor d t b)"
  by (auto simp: invariant_def constructor_def fund_slot_ok_def event_slot_ok_def
        hashes_unique_def hashes_owned_def transaction_slot_ok_def fundExists_def
        eventExists_def transactionExists_def)

lemma invariant_createDisasterEvent:
  assumes inv: "invariant s" and ok: "createDisasterEvent e t l h sc p d a s = Inr (i, s')"
  shows "invariant s'"
proof -
  note r = createDisasterEvent_Inr[OF ok]
  from r have n: "unat (eventCounter s) + 1 < 2 ^ 256" by simp
  note w = le_succ_word[OF n] succ_not_le_word[OF n]
  have ex: "eventExists j s' \<longleftrightarrow> eventExists j s \<or> j = eventCounter s + 1" for j
    using r by (auto simp: eventExists_def w)
  have new: "\<not> eventExists (eventCounter s + 1) s"
    by (simp add: eventExists_def w)
  have fresh: "imageHash (disasterEvents s j) \<noteq> h" if "eventExists j s" for j
    using inv that r by (auto simp: invariant_def event_slot_ok_def)
  have 1: "\<not> entered s'" using inv r by (simp add: invariant_def)
  have 2: "fund_slot_ok s' f" for f
    using invariantD(2)[OF inv, of f] r by (auto simp: fund_slot_ok_def fundExists_def)
  have 3: "event_slot_ok s' j" for j
    using invariantD(3)[OF inv, of j] r
    by (auto simp: event_slot_ok_def eventExists_def w)
  have 4: "hashes_unique s'"
    unfolding hashes_unique_def
  proof (intro allI impI)
    fix j k
    assume a: "eventExists j s'" "eventExists k s'"
       "imageHash (disasterEvents s' j) = imageHash (disasterEvents s' k)"
    from inv have u: "hashes_unique s" by (simp add: invariant_def)
    show "j = k"
    proof (cases "j = eventCounter s + 1")
      case True
      show ?thesis
      proof (cases "k = eventCounter s + 1")
        case True
        with \<open>j = eventCounter s + 1\<close> show ?thesis by simp
      next
        case False
        with a(2) have "eventExists k s" by (simp add: ex)
        from fresh[OF this] a(3) True False r show ?thesis by auto
      qed
    next
      case False
      with a(1) have j: "eventExists j s" by (simp add: ex)
      show ?thesis
      proof (cases "k = eventCounter s + 1")
        case True
        from fresh[OF j] a(3) True False r show ?thesis by auto
      next
        case k: False
        with a(2) have "eventExists k s" by (simp add: ex)
        with j a(3) False k r u show ?thesis by (auto simp: hashes_unique_def)
      qed
    qed
  qed
  have 5: "hashes_owned s'"
    unfolding hashes_owned_def
  proof (intro allI impI)
    fix g assume g: "processedImageHashes s' g"
    show "\<exists>j. eventExists j s' \<and> imageHash (disasterEvents s' j) = g"
    proof (cases "g = h")
      case True
      with r show ?thesis
        by (intro exI[of _ "eventCounter s + 1"]) (auto simp: eventExists_def w)
    next
      case False
      with g r have "processedImageHashes s g" by auto
      with inv obtain j where j: "eventExists j s" "imageHash (disasterEvents s j) = g"
        by (auto simp: invariant_def hashes_owned_def)
      with new have "j \<noteq> eventCounter s + 1" by auto
      with j r show ?thesis by (intro exI[of _ j]) (auto simp: eventExists_def w)
    qed
  qed
  have 6: "transaction_slot_ok s' u" for u
    using invariantD(6)[OF inv, of u] r
    by (auto simp: transaction_slot_ok_def transactionExists_def eventExists_def w)
  from 1 2 3 4 5 6 show ?thesis by (simp add: invariant_def)
qed

lemma invariant_verifyDisasterEvent:
  assumes inv: "invariant s" and ok: "verifyDisasterEvent e i s = Inr s'"
  shows "invariant s'"
proof -
  note r = verifyDisasterEvent_Inr[OF ok]
  have ex: "eventExists j s' \<longleftrightarrow> eventExists j s" for j
    using r by (auto simp: eventExists_def)
  have hash: "imageHash (disasterEvents s' j) = imageHash (disasterEvents s j)" for j
    using r by auto
  have proc: "processedImageHashes s' = processedImageHashes s"
    using r by auto
  have 1: "\<not> entered s'" using inv r by (simp add: invariant_def)
  have 2: "fund_slot_ok s' f" for f
    using invariantD(2)[OF inv, of f] r by (auto simp: fund_slot_ok_def fundExists_def)
  have 3: "event_slot_ok s' j" for j
    using invariantD(3)[OF inv, of j] r
    by (auto simp: event_slot_ok_def eventExists_def)
  have 4: "hashes_unique s'"
    using inv by (simp add: invariant_def hashes_unique_def ex hash)
  have 5: "hashes_owned s'"
    using inv by (simp add: invariant_def hashes_owned_def ex hash proc)
  have 6: "transaction_slot_ok s' u" for u
    using invariantD(6)[OF inv, of u] r
    by (auto simp: transaction_slot_ok_def transactionExists_def eventExists_def)
  from 1 2 3 4 5 6 show ?thesis by (simp add: invariant_def)
qed

lemma invariant_donateToEvent:
  assumes inv: "invariant s" and ok: "donateToEvent e i p v s = Inr s'"
  shows "invariant s'"
proof -
  note r = donateToEvent_Inr[OF ok]
  from r have n: "unat (transactionCounter s) + 1 < 2 ^ 256" by simp
  note w = le_succ_word[OF n] succ_not_le_word[OF n]
  have 1: "\<not> entered s'" using r by simp
  have 2: "fund_slot_ok s' f" for f
    using invariantD(2)[OF inv, of f] r by (auto simp: fund_slot_ok_def fundExists_def)
  have 3: "event_slot_ok s' j" for j
    using invariantD(3)[OF inv, of j] r by (auto simp: event_slot_ok_def eventExists_def)
  have 4: "hashes_unique s'"
    using invariantD(4)[OF inv] r by (auto simp: hashes_unique_def eventExists_def)
  have 5: "hashes_owned s'"
    using invariantD(5)[OF inv] r by (auto simp: hashes_owned_def eventExists_def)
  have 6: "transaction_slot_ok s' u" for u
    using invariantD(6)[OF inv, of u] r
    by (auto simp: transaction_slot_ok_def transactionExists_def eventExists_def w)
  from 1 2 3 4 5 6 show ?thesis by (simp add: invariant_def)
qed

lemma invariant_createAndApproveFund:
  assumes inv: "invariant s" and ok: "createAndApproveFund e i a s = Inr s'"
  shows "invariant s'"
proof -
  note r = createAndApproveFund_Inr[OF ok]
  from r have n: "unat (fundCounter s) + 1 < 2 ^ 256" by simp
  note w = le_succ_word[OF n] succ_not_le_word[OF n]
  have 1: "\<not> entered s'" using inv r by (simp add: invariant_def)
  have 2: "fund_slot_ok s' f" for f
    using invariantD(2)[OF inv, of f] r
    by (auto simp: fund_slot_ok_def fundExists_def w fund_ok_def)
  have 3: "event_slot_ok s' j" for j
    using invariantD(3)[OF inv, of j] r by (auto simp: event_slot_ok_def eventExists_def)
  have 4: "hashes_unique s'"
    using invariantD(4)[OF inv] r by (auto simp: hashes_unique_def eventExists_def)
  have 5: "hashes_owned s'"
    using invariantD(5)[OF inv] r by (auto simp: hashes_owned_def eventExists_def)
  have 6: "transaction_slot_ok s' u" for u
    using invariantD(6)[OF inv, of u] r
    by (auto simp: transaction_slot_ok_def transactionExists_def eventExists_def)
  from 1 2 3 4 5 6 show ?thesis by (simp add: invariant_def)
qed

lemma fund_ok_distributed_fund:
  assumes "fund_ok F" "fund_status F = APPROVED"
    "unat (distributedAmount F) + unat a \<le> unat (totalAmount F)"
  shows "fund_ok (distributed_fund F a)"
proof -
  have lt: "unat (totalAmount F) < 2 ^ 256" using unsigned_less[of "totalAmount F"] by simp
  with assms(3) have u: "unat (distributedAmount F + a) = unat (distributedAmount F) + unat a"
    by (simp add: unat_add_lem[THEN iffD1])
  show ?thesis using assms u
    by (auto simp: fund_ok_def distributed_fund_def word_le_nat_alt word_less_nat_alt word_unat_eq_iff)
qed

lemma invariant_distributeFund:
  assumes inv: "invariant s" and ok: "distributeFund e f r a s = Inr s'"
  shows "invariant s'"
proof -
  note r = distributeFund_Inr[OF ok]
  have 1: "\<not> entered s'" using r by simp
  have 2: "fund_slot_ok s' g" for g
  proof (cases "g = f")
    case True
    from inv r have "fund_ok (disasterFunds s f)"
      by (auto simp: invariant_def fund_slot_ok_def)
    from fund_ok_distributed_fund[OF this] r have "fund_ok (distributed_fund (disasterFunds s f) a)"
      by simp
    with True r show ?thesis by (auto simp: fund_slot_ok_def fundExists_def)
  next
    case False
    with invariantD(2)[OF inv, of g] r
    show ?thesis by (auto simp: fund_slot_ok_def fundExists_def)
  qed
  have 3: "event_slot_ok s' j" for j
    using invariantD(3)[OF inv, of j] r by (auto simp: event_slot_ok_def eventExists_def)
  have 4: "hashes_unique s'"
    using invariantD(4)[OF inv] r by (auto simp: hashes_unique_def eventExists_def)
  have 5: "hashes_owned s'"
    using invariantD(5)[OF inv] r by (auto simp: hashes_owned_def eventExists_def)
  have 6: "transaction_slot_ok s' u" for u
    using invariantD(6)[OF inv, of u] r
    by (auto simp: transaction_slot_ok_def transactionExists_def eventExists_def)
  from 1 2 3 4 5 6 show ?thesis by (simp add: invariant_def)
qed

lemma invariant_frame:
  assumes inv: "invariant s"
  shows "invariant (s\<lparr>authorizedOfficials := x\<rparr>)" and "invariant (s\<lparr>owner := y, emitted := w\<rparr>)"
    and "invariant (s\<lparr>balance := z\<rparr>)"
proof -
  have "\<not> entered (s\<lparr>authorizedOfficials := x\<rparr>) \<and> \<not> entered (s\<lparr>owner := y, emitted := w\<rparr>)
      \<and> \<not> entered (s\<lparr>balance := z\<rparr>)"
    using invariantD(1)[OF inv] by simp
  moreover have "fund_slot_ok (s\<lparr>authorizedOfficials := x\<rparr>) f
      \<and> fund_slot_ok (s\<lparr>owner := y, emitted := w\<rparr>) f \<and> fund_slot_ok (s\<lparr>balance := z\<rparr>) f" for f
    using invariantD(2)[OF inv, of f] by (simp add: fund_slot_ok_def fundExists_def)
  moreover have "event_slot_ok (s\<lparr>authorizedOfficials := x\<rparr>) i
      \<and> event_slot_ok (s\<lparr>owner := y, emitted := w\<rparr>) i \<and> event_slot_ok (s\<lparr>balance := z\<rparr>) i" for i
    using invariantD(3)[OF inv, of i] by (simp add: event_slot_ok_def eventExists_def)
  moreover have "hashes_unique (s\<lparr>authorizedOfficials := x\<rparr>)
      \<and> hashes_unique (s\<lparr>owner := y, emitted := w\<rparr>) \<and> hashes_unique (s\<lparr>balance := z\<rparr>)"
    using invariantD(4)[OF inv] by (simp add: hashes_unique_def eventExists_def)
  moreover have "hashes_owned (s\<lparr>authorizedOfficials := x\<rparr>)
      \<and> hashes_owned (s\<lparr>owner := y, emitted := w\<rparr>) \<and> hashes_owned (s\<lparr>balance := z\<rparr>)"
    using invariantD(5)[OF inv] by (simp add: hashes_owned_def eventExists_def)
  moreover have "transaction_slot_ok (s\<lparr>authorizedOfficials := x\<rparr>) t
      \<and> transaction_slot_ok (s\<lparr>owner := y, emitted := w\<rparr>) t
      \<and> transaction_slot_ok (s\<lparr>balance := z\<rparr>) t" for t
    using invariantD(6)[OF inv, of t]
    by (auto simp: transaction_slot_ok_def transactionExists_def eventExists_def)
  ultimately show "invariant (s\<lparr>authorizedOfficials := x\<rparr>)"
    and "invariant (s\<lparr>owner := y, emitted := w\<rparr>)" and "invariant (s\<lparr>balance := z\<rparr>)"
    by (simp_all add: invariant_def)
qed

lemma invariant_exec:
  assumes "invariant s" "exec e c s = Inr s'"
  shows "invariant s'"
proof (cases c)
  case (CreateDisasterEvent t l h sc p d a)
  with assms(2) obtain i where "createDisasterEvent e t l h sc p d a s = Inr (i, s')"
    by (auto split: sum.splits)
  from invariant_createDisasterEvent[OF assms(1) this] show ?thesis .
next
  case (VerifyDisasterEvent i)
  with assms invariant_verifyDisasterEvent show ?thesis by simp
next
  case (DonateToEvent i p v)
  with assms invariant_donateToEvent show ?thesis by simp
next
  case (CreateAndApproveFund i a)
  with assms invariant_createAndApproveFund show ?thesis by simp
next
  case (DistributeFund f r a)
  with assms invariant_distributeFund show ?thesis by simp
next
  case (AddAuthorizedOfficial a)
  with assms invariant_frame(1) admin_Inr(1) show ?thesis by fastforce
next
  case (RemoveAuthorizedOfficial a)
  with assms invariant_frame(1) admin_Inr(2) show ?thesis by fastforce
next
  case (TransferOwnership a)
  with assms invariant_frame(2) admin_Inr(3) show ?thesis by fastforce
next
  case RenounceOwnership
  with assms invariant_frame(2) admin_Inr(4) show ?thesis by fastforce
next
  case (Receive v)
  with assms invariant_frame(3) admin_Inr(5) show ?thesis by fastforce
qed

lemma invariant_apply_call: "invariant s \<Longrightarrow> invariant (apply_call e c s)"
  by (cases "exec e c s") (simp_all add: apply_call_def invariant_exec)

lemma reachable_invariant: "reachable s \<Longrightarrow> invariant s"
  by (induction rule: reachable.induct) (simp_all add: invariant_constructor invariant_apply_call)

lemma reachable_run: "reachable s \<Longrightarrow> reachable (run s cs)"
  by (induction s cs rule: run.induct) (simp_all add: reachable.step)

subsection \<open>The states of the ledger in use\<close>

lemma ledger_reported_eq:
  "ledger_reported =
     \<lparr>owner = 1, entered = False, self = 99, balance = 0,
      eventCounter = 1, transactionCounter = 0, fundCounter = 0,
      disasterEvents = (\<lambda>_. zero_event)(1 :=
        \<lparr>eventId = 1, disasterType = FLOOD, location = ''Kerala'', timestamp = 1000,
         imageHash = ''Qm01'', severityScore = 65, severityLevel = MEDIUM, reportedBy = 1,
         isVerified = False, estimatedAffected = 10000, infrastructureDamage = 75,
         impactArea = 50\<rparr>),
      fundTransactions = (\<lambda>_. zero_transaction),
      disasterFunds = (\<lambda>_. zero_fund),
      processedImageHashes = (\<lambda>_. False)(''Qm01'' := True),
      authorizedOfficials = (\<lambda>_. False)(1 := True),
      allEventIds = [1], allTransactionIds = [],
      emitted = [OwnershipTransferred 0 1, DisasterEventCreated 1 FLOOD ''Kerala'' 65 1]\<rparr>"
  by (simp add: ledger_reported_def ledger_new_def by_official_def apply_call_def
        constructor_def createDisasterEvent_def onlyAuthorized_def checked_add_def
        getSeverityLevel_def)

lemma ledger_verified_eq:
  "ledger_verified =
     \<lparr>owner = 1, entered = False, self = 99, balance = 0,
      eventCounter = 1, transactionCounter = 0, fundCounter = 0,
      disasterEvents = (\<lambda>_. zero_event)(1 :=
        \<lparr>eventId = 1, disasterType = FLOOD, location = ''Kerala'', timestamp = 1000,
         imageHash = ''Qm01'', severityScore = 65, severityLevel = MEDIUM, reportedBy = 1,
         isVerified = True, estimatedAffected = 10000, infrastructureDamage = 75,
         impactArea = 50\<rparr>),
      fundTransactions = (\<lambda>_. zero_transaction),
      disasterFunds = (\<lambda>_. zero_fund),
      processedImageHashes = (\<lambda>_. False)(''Qm01'' := True),
      authorizedOfficials = (\<lambda>_. False)(1 := True),
      allEventIds = [1], allTransactionIds = [],
      emitted = [OwnershipTransferred 0 1, DisasterEventCreated 1 FLOOD ''Kerala'' 65 1, DisasterEventVerified 1 True]\<rparr>"
  by (simp add: ledger_verified_def ledger_reported_eq by_official_def apply_call_def
        verifyDisasterEvent_def onlyAuthorized_def eventExists_def)

lemma ledger_approved_eq:
  "ledger_approved =
     \<lparr>owner = 1, entered = False, self = 99, balance = 0,
      eventCounter = 1, transactionCounter = 0, fundCounter = 1,
      disasterEvents = (\<lambda>_. zero_event)(1 :=
        \<lparr>eventId = 1, disasterType = FLOOD, location = ''Kerala'', timestamp = 1000,
         imageHash = ''Qm01'', severityScore = 65, severityLevel = MEDIUM, reportedBy = 1,
         isVerified = True, estimatedAffected = 10000, infrastructureDamage = 75,
         impactArea = 50\<rparr>),
      fundTransactions = (\<lambda>_. zero_transaction),
      disasterFunds = (\<lambda>_. zero_fund)(1 :=
        \<lparr>fundId = 1, fund_eventId = 1, totalAmount = 100000, distributedAmount = 0,
         createdAt = 1000, approvedBy = 1, fund_status = APPROVED\<rparr>),
      processedImageHashes = (\<lambda>_. False)(''Qm01'' := True),
      authorizedOfficials = (\<lambda>_. False)(1 := True),
      allEventIds = [1], allTransactionIds = [],
      emitted = [OwnershipTransferred 0 1, DisasterEventCreated 1 FLOOD ''Kerala'' 65 1, DisasterEventVerified 1 True,
                 FundApproved 1 1 100000 1]\<rparr>"
  by (simp add: ledger_approved_def ledger_verified_eq by_official_def apply_call_def
        createAndApproveFund_def onlyAuthorized_def eventExists_def checked_add_def)

lemma ledger_funded_eq:
  "ledger_funded =
     \<lparr>owner = 1, entered = False, self = 99, balance = 100000,
      eventCounter = 1, transactionCounter = 1, fundCounter = 1,
      disasterEvents = (\<lambda>_. zero_event)(1 :=
        \<lparr>eventId = 1, disasterType = FLOOD, location = ''Kerala'', timestamp = 1000,
         imageHash = ''Qm01'', severityScore = 65, severityLevel = MEDIUM, reportedBy = 1,
         isVerified = True, estimatedAffected = 10000, infrastructureDamage = 75,
         impactArea = 50\<rparr>),
      fundTransactions = (\<lambda>_. zero_transaction)(1 :=
        \<lparr>transactionId = 1, tx_eventId = 1, donor = 3, amount = 100000,
         tx_timestamp = 2000, tx_status = PENDING, purpose = ''relief'',
         isBlockchainVerified = True\<rparr>),
      disasterFunds = (\<lambda>_. zero_fund)(1 :=
        \<lparr>fundId = 1, fund_eventId = 1, totalAmount = 100000, distributedAmount = 0,
         createdAt = 1000, approvedBy = 1, fund_status = APPROVED\<rparr>),
      processedImageHashes = (\<lambda>_. False)(''Qm01'' := True),
      authorizedOfficials = (\<lambda>_. False)(1 := True),
      allEventIds = [1], allTransactionIds = [1],
      emitted = [OwnershipTransferred 0 1, DisasterEventCreated 1 FLOOD ''Kerala'' 65 1, DisasterEventVerified 1 True,
                 FundApproved 1 1 100000 1, FundDonated 1 1 3 100000]\<rparr>"
  by (simp add: ledger_funded_def ledger_approved_eq by_donor_def apply_call_def
        donateToEvent_def eventExists_def checked_add_def)

lemma ledger_partial_eq:
  "ledger_partial =
     \<lparr>owner = 1, entered = False, self = 99, balance = 40000,
      eventCounter = 1, transactionCounter = 1, fundCounter = 1,
      disasterEvents = (\<lambda>_. zero_event)(1 :=
        \<lparr>eventId = 1, disasterType = FLOOD, location = ''Kerala'', timestamp = 1000,
         imageHash = ''Qm01'', severityScore = 65, severityLevel = MEDIUM, reportedBy = 1,
         isVerified = True, estimatedAffected = 10000, infrastructureDamage = 75,
         impactArea = 50\<rparr>),
      fundTransactions = (\<lambda>_. zero_transaction)(1 :=
        \<lparr>transactionId = 1, tx_eventId = 1, donor = 3, amount = 100000,
         tx_timestamp = 2000, tx_status = PENDING, purpose = ''relief'',
         isBlockchainVerified = True\<rparr>),
      disasterFunds = (\<lambda>_. zero_fund)(1 :=
        \<lparr>fundId = 1, fund_eventId = 1, totalAmount = 100000, distributedAmount = 60000,
         createdAt = 1000, approvedBy = 1, fund_status = APPROVED\<rparr>),
      processedImageHashes = (\<lambda>_. False)(''Qm01'' := True),
      authorizedOfficials = (\<lambda>_. False)(1 := True),
      allEventIds = [1], allTransactionIds = [1],
      emitted = [OwnershipTransferred 0 1, DisasterEventCreated 1 FLOOD ''Kerala'' 65 1, DisasterEventVerified 1 True,
                 FundApproved 1 1 100000 1, FundDonated 1 1 3 100000,
                 FundDistributed 1 1 60000]\<rparr>"
  by (simp add: ledger_partial_def ledger_funded_eq by_official_def apply_call_def
        distributeFund_def transfer_def onlyAuthorized_def fundExists_def checked_add_def)

lemma ledger_paid_eq:
  "ledger_paid =
     \<lparr>owner = 1, entered = False, self = 99, balance = 0,
      eventCounter = 1, transactionCounter = 1, fundCounter = 1,
      disasterEvents = (\<lambda>_. zero_event)(1 :=
        \<lparr>eventId = 1, disasterType = FLOOD, location = ''Kerala'', timestamp = 1000,
         imageHash = ''Qm01'', severityScore = 65, severityLevel = MEDIUM, reportedBy = 1,
         isVerified = True, estimatedAffected = 10000, infrastructureDamage = 75,
         impactArea = 50\<rparr>),
      fundTransactions = (\<lambda>_. zero_transaction)(1 :=
        \<lparr>transactionId = 1, tx_eventId = 1, donor = 3, amount = 100000,
         tx_timestamp = 2000, tx_status = PENDING, purpose = ''relief'',
         isBlockchainVerified = True\<rparr>),
      disasterFunds = (\<lambda>_. zero_fund)(1 :=
        \<lparr>fundId = 1, fund_eventId = 1, totalAmount = 100000, distributedAmount = 100000,
         createdAt = 1000, approvedBy = 1, fund_status = DISTRIBUTED\<rparr>),
      processedImageHashes = (\<lambda>_. False)(''Qm01'' := True),
      authorizedOfficials = (\<lambda>_. False)(1 := True),
      allEventIds = [1], allTransactionIds = [1],
      emitted = [OwnershipTransferred 0 1, DisasterEventCreated 1 FLOOD ''Kerala'' 65 1, DisasterEventVerified 1 True,
                 FundApproved 1 1 100000 1, FundDonated 1 1 3 100000,
                 FundDistributed 1 1 60000, FundDistributed 1 1 40000]\<rparr>"
  by (simp add: ledger_paid_def ledger_partial_eq by_official_def apply_call_def
        distributeFund_def transfer_def onlyAuthorized_def fundExists_def checked_add_def)

lemma reachable_ledgers:
  "reachable ledger_new" "reachable ledger_reported" "reachable ledger_verified"
  "reachable ledger_approved" "reachable ledger_funded" "reachable ledger_partial"
  "reachable ledger_paid"
  unfolding ledger_new_def ledger_reported_def ledger_verified_def ledger_approved_def
    ledger_funded_def ledger_partial_def ledger_paid_def
  by (intro reachable.intros)+

section \<open>The claims\<close>

subsection \<open>Severity level\<close>

lemma reachable_severityLevel:
  assumes "reachable s"
  shows "severityLevel (disasterEvents s i) = getSeverityLevel (severityScore (disasterEvents s i))"
  using invariantD(3)[OF reachable_invariant[OF assms], of i]
  by (auto simp: event_slot_ok_def zero_event_def getSeverityLevel_def split: if_splits)

text \<open>
  Claim C3. The severity level is fixed by the score through two thresholds: a score of at
  most 40 is LOW, a score above 40 and at most 70 is MEDIUM, a score above 70 is HIGH; so
  40 is LOW, 41 and 70 are MEDIUM and 71 is HIGH. The level is a function of the score
  alone: in every reachable storage the level stored in an event record is the level of
  the score stored beside it.
\<close>

theorem getSeverityLevel_thresholds:
  "(unat score \<le> 40 \<longrightarrow> getSeverityLevel score = LOW)
   \<and> (40 < unat score \<and> unat score \<le> 70 \<longrightarrow> getSeverityLevel score = MEDIUM)
   \<and> (70 < unat score \<longrightarrow> getSeverityLevel score = HIGH)
   \<and> getSeverityLevel 40 = LOW \<and> getSeverityLevel 41 = MEDIUM
   \<and> getSeverityLevel 70 = MEDIUM \<and> getSeverityLevel 71 = HIGH
   \<and> (reachable s \<longrightarrow>
        severityLevel (disasterEvents s i) = getSeverityLevel (severityScore (disasterEvents s i)))"
proof -
  have "unat score \<le> 40 \<longrightarrow> getSeverityLevel score = LOW"
    by (simp add: getSeverityLevel_def word_le_nat_alt)
  moreover have "40 < unat score \<and> unat score \<le> 70 \<longrightarrow> getSeverityLevel score = MEDIUM"
    by (simp add: getSeverityLevel_def word_le_nat_alt)
  moreover have "70 < unat score \<longrightarrow> getSeverityLevel score = HIGH"
    by (simp add: getSeverityLevel_def word_le_nat_alt)
  moreover have "getSeverityLevel 40 = LOW \<and> getSeverityLevel 41 = MEDIUM
      \<and> getSeverityLevel 70 = MEDIUM \<and> getSeverityLevel 71 = HIGH"
    by (simp add: getSeverityLevel_def)
  ultimately show ?thesis using reachable_severityLevel by blast
qed

theorem getSeverityLevel_thresholds_witness:
  "unat (20 :: uint256) \<le> 40 \<and> getSeverityLevel 20 = LOW
   \<and> 40 < unat (55 :: uint256) \<and> unat (55 :: uint256) \<le> 70 \<and> getSeverityLevel 55 = MEDIUM
   \<and> 70 < unat (90 :: uint256) \<and> getSeverityLevel 90 = HIGH
   \<and> reachable ledger_reported
   \<and> severityScore (disasterEvents ledger_reported 1) = 65
   \<and> severityLevel (disasterEvents ledger_reported 1) = getSeverityLevel 65"
proof -
  have r: "reachable ledger_reported" by (rule reachable_ledgers)
  have sc: "severityScore (disasterEvents ledger_reported 1) = 65"
    by (simp add: ledger_reported_eq)
  have "getSeverityLevel 20 = LOW"
    using getSeverityLevel_thresholds[of 20] by simp
  moreover have "getSeverityLevel 55 = MEDIUM"
    using getSeverityLevel_thresholds[of 55] by simp
  moreover have "getSeverityLevel 90 = HIGH"
    using getSeverityLevel_thresholds[of 90] by simp
  moreover have "severityLevel (disasterEvents ledger_reported 1) = getSeverityLevel 65"
    using getSeverityLevel_thresholds[of 0 ledger_reported 1] r sc by simp
  ultimately show ?thesis using r sc by simp
qed

subsection \<open>Event creation is privileged\<close>

text \<open>
  Claim C9. \<open>createDisasterEvent\<close> carries the modifier \<open>onlyAuthorized\<close>: a caller that
  is neither the owner nor an authorized official is rejected with "Not authorized"
  (the spec's AuthorizationError), whatever the arguments, and the storage, with its
  event counter and event records, stays as it was.
\<close>

theorem createDisasterEvent_unauthorized:
  assumes "sender e \<noteq> owner s" and "\<not> authorizedOfficials s (sender e)"
  shows "createDisasterEvent e t l h sc p d a s = Inl (Revert ''Not authorized'')
     \<and> apply_call e (CreateDisasterEvent t l h sc p d a) s = s"
  using assms by (simp add: createDisasterEvent_def onlyAuthorized_def apply_call_def)

theorem createDisasterEvent_unauthorized_witness:
  "sender by_donor \<noteq> owner ledger_new \<and> \<not> authorizedOfficials ledger_new (sender by_donor)
   \<and> createDisasterEvent by_donor FLOOD ''Kerala'' ''Qm01'' 65 10000 75 50 ledger_new
       = Inl (Revert ''Not authorized'')
   \<and> eventCounter (apply_call by_donor
        (CreateDisasterEvent FLOOD ''Kerala'' ''Qm01'' 65 10000 75 50) ledger_new) = 0"
proof -
  have a: "sender by_donor \<noteq> owner ledger_new"
    and b: "\<not> authorizedOfficials ledger_new (sender by_donor)"
    by (simp_all add: by_donor_def ledger_new_def constructor_def)
  have c: "eventCounter ledger_new = 0" by (simp add: ledger_new_def constructor_def)
  from createDisasterEvent_unauthorized[OF a b, of FLOOD "''Kerala''" "''Qm01''" 65 10000 75 50]
  show ?thesis using a b c by simp
qed

subsection \<open>Verification\<close>

lemma verified_kept_step:
  assumes "eventExists i s" "isVerified (disasterEvents s i)"
  shows "eventExists i (apply_call e c s) \<and> isVerified (disasterEvents (apply_call e c s) i)"
proof (cases "exec e c s")
  case (Inl err)
  with assms show ?thesis by (simp add: apply_call_def)
next
  case (Inr s')
  have "eventExists i s' \<and> isVerified (disasterEvents s' i)"
  proof (cases c)
    case (CreateDisasterEvent t l h sc p d a)
    with Inr obtain j where "createDisasterEvent e t l h sc p d a s = Inr (j, s')"
      by (auto split: sum.splits)
    note r = createDisasterEvent_Inr[OF this]
    from r have n: "unat (eventCounter s) + 1 < 2 ^ 256" by simp
    from assms r show ?thesis
      by (auto simp: eventExists_def le_succ_word[OF n] succ_not_le_word[OF n])
  next
    case (VerifyDisasterEvent j)
    with Inr assms verifyDisasterEvent_Inr[of e j s s'] show ?thesis
      by (auto simp: eventExists_def)
  next
    case (DonateToEvent j p v)
    with Inr assms donateToEvent_Inr[of e j p v s s'] show ?thesis
      by (auto simp: eventExists_def)
  next
    case (CreateAndApproveFund j a)
    with Inr assms createAndApproveFund_Inr[of e j a s s'] show ?thesis
      by (auto simp: eventExists_def)
  next
    case (DistributeFund f r a)
    with Inr assms distributeFund_Inr[of e f r a s s'] show ?thesis
      by (auto simp: eventExists_def)
  next
    case (AddAuthorizedOfficial a)
    with Inr assms admin_Inr(1)[of e a s s'] show ?thesis by (auto simp: eventExists_def)
  next
    case (RemoveAuthorizedOfficial a)
    with Inr assms admin_Inr(2)[of e a s s'] show ?thesis by (auto simp: eventExists_def)
  next
    case (TransferOwnership a)
    with Inr assms admin_Inr(3)[of e a s s'] show ?thesis by (auto simp: eventExists_def)
  next
    case RenounceOwnership
    with Inr assms admin_Inr(4)[of e s s'] show ?thesis by (auto simp: eventExists_def)
  next
    case (Receive v)
    with Inr assms admin_Inr(5)[of v s s'] show ?thesis by (auto simp: eventExists_def)
  qed
  with Inr show ?thesis by (simp add: apply_call_def)
qed

lemma verified_kept_run:
  "eventExists i s \<Longrightarrow> isVerified (disasterEvents s i) \<Longrightarrow>
     eventExists i (run s cs) \<and> isVerified (disasterEvents (run s cs) i)"
  by (induction s cs rule: run.induct) (simp_all add: verified_kept_step)

text \<open>
  Claim C4. \<open>verifyDisasterEvent\<close> is not idempotent. A caller that is not authorized is
  rejected with "Not authorized" (AuthorizationError); an authorized call on an id that
  is not an event's is rejected with "Event does not exist" (NotFoundError); an
  authorized call on an existing event that is not yet verified succeeds and sets its
  verification flag; and from then on, after any further calls, every authorized call on
  that event is rejected with "Already verified" (AlreadyVerifiedError).
\<close>

theorem verifyDisasterEvent_once:
  "(\<not> onlyAuthorized e s \<longrightarrow> verifyDisasterEvent e i s = Inl (Revert ''Not authorized''))
   \<and> (onlyAuthorized e s \<and> \<not> eventExists i s \<longrightarrow>
        verifyDisasterEvent e i s = Inl (Revert ''Event does not exist''))
   \<and> (onlyAuthorized e s \<and> eventExists i s \<and> \<not> isVerified (disasterEvents s i) \<longrightarrow>
        verifyDisasterEvent e i s = Inr (apply_call e (VerifyDisasterEvent i) s)
        \<and> isVerified (disasterEvents (apply_call e (VerifyDisasterEvent i) s) i)
        \<and> (onlyAuthorized e' (run (apply_call e (VerifyDisasterEvent i) s) cs) \<longrightarrow>
             verifyDisasterEvent e' i (run (apply_call e (VerifyDisasterEvent i) s) cs)
               = Inl (Revert ''Already verified'')))"
proof (intro conjI impI)
  assume "\<not> onlyAuthorized e s"
  then show "verifyDisasterEvent e i s = Inl (Revert ''Not authorized'')"
    by (simp add: verifyDisasterEvent_def)
next
  assume "onlyAuthorized e s \<and> \<not> eventExists i s"
  then show "verifyDisasterEvent e i s = Inl (Revert ''Event does not exist'')"
    by (simp add: verifyDisasterEvent_def)
next
  assume a: "onlyAuthorized e s \<and> eventExists i s \<and> \<not> isVerified (disasterEvents s i)"
  let ?s' = "apply_call e (VerifyDisasterEvent i) s"
  from a show ok: "verifyDisasterEvent e i s = Inr ?s'"
    by (simp add: verifyDisasterEvent_def apply_call_def Let_def)
  from verifyDisasterEvent_Inr[OF ok] a
  have v: "eventExists i ?s' \<and> isVerified (disasterEvents ?s' i)"
    by (auto simp: eventExists_def)
  then show "isVerified (disasterEvents ?s' i)" by simp
  assume "onlyAuthorized e' (run ?s' cs)"
  with verified_kept_run[of i ?s' cs] v
  show "verifyDisasterEvent e' i (run ?s' cs) = Inl (Revert ''Already verified'')"
    by (simp add: verifyDisasterEvent_def)
qed

theorem verifyDisasterEvent_once_witness:
  "\<not> onlyAuthorized by_donor ledger_reported
   \<and> verifyDisasterEvent by_donor 1 ledger_reported = Inl (Revert ''Not authorized'')
   \<and> onlyAuthorized by_official ledger_reported \<and> \<not> eventExists 2 ledger_reported
   \<and> verifyDisasterEvent by_official 2 ledger_reported = Inl (Revert ''Event does not exist'')
   \<and> eventExists 1 ledger_reported \<and> \<not> isVerified (disasterEvents ledger_reported 1)
   \<and> verifyDisasterEvent by_official 1 ledger_reported = Inr ledger_verified
   \<and> isVerified (disasterEvents ledger_verified 1)
   \<and> onlyAuthorized by_official ledger_verified
   \<and> verifyDisasterEvent by_official 1 ledger_verified = Inl (Revert ''Already verified'')"
proof -
  have h: "\<not> onlyAuthorized by_donor ledger_reported"
    "onlyAuthorized by_official ledger_reported" "\<not> eventExists 2 ledger_reported"
    "eventExists 1 ledger_reported" "\<not> isVerified (disasterEvents ledger_reported 1)"
    "onlyAuthorized by_official ledger_verified"
    by (simp_all add: ledger_reported_eq ledger_verified_eq onlyAuthorized_def eventExists_def
          by_donor_def by_official_def word_le_nat_alt)
  have 1: "verifyDisasterEvent by_donor 1 ledger_reported = Inl (Revert ''Not authorized'')"
    using verifyDisasterEvent_once[of by_donor ledger_reported 1] h by simp
  have 2: "verifyDisasterEvent by_official 2 ledger_reported = Inl (Revert ''Event does not exist'')"
    using verifyDisasterEvent_once[of by_official ledger_reported 2] h by simp
  have 3: "verifyDisasterEvent by_official 1 ledger_reported = Inr ledger_verified
      \<and> isVerified (disasterEvents ledger_verified 1)
      \<and> verifyDisasterEvent by_official 1 ledger_verified = Inl (Revert ''Already verified'')"
    using verifyDisasterEvent_once[of by_official ledger_reported 1 by_official "[]"] h
    by (simp add: ledger_verified_def[symmetric])
  from h 1 2 3 show ?thesis by simp
qed

subsection \<open>Rejected calls\<close>

lemma exec_body: "exec e c s = outcome (body e c s)"
proof (cases c)
  case (CreateDisasterEvent t l h sc p d a)
  then show ?thesis
    by (simp add: outcome_def createDisasterEvent_def createDisasterEvent_body_def Let_def
          split: sum.splits)
next
  case (VerifyDisasterEvent i)
  then show ?thesis
    by (simp add: outcome_def verifyDisasterEvent_def verifyDisasterEvent_body_def Let_def)
next
  case (DonateToEvent i p v)
  then show ?thesis
    by (simp add: outcome_def donateToEvent_def donateToEvent_body_def Let_def
          split: sum.splits)
next
  case (CreateAndApproveFund i a)
  then show ?thesis
    by (simp add: outcome_def createAndApproveFund_def createAndApproveFund_body_def Let_def
          split: sum.splits)
next
  case (DistributeFund f r a)
  then show ?thesis
    by (simp add: outcome_def distributeFund_def distributeFund_body_def Let_def
          split: sum.splits)
next
  case (AddAuthorizedOfficial a)
  then show ?thesis
    by (simp add: outcome_def addAuthorizedOfficial_def addAuthorizedOfficial_body_def)
next
  case (RemoveAuthorizedOfficial a)
  then show ?thesis
    by (simp add: outcome_def removeAuthorizedOfficial_def removeAuthorizedOfficial_body_def)
next
  case (TransferOwnership a)
  then show ?thesis
    by (simp add: outcome_def transferOwnership_def transferOwnership_body_def)
next
  case RenounceOwnership
  then show ?thesis
    by (simp add: outcome_def renounceOwnership_def renounceOwnership_body_def)
next
  case (Receive v)
  then show ?thesis by (simp add: outcome_def receive_def)
qed

text \<open>
  Where each function is rejected: at a check, with nothing written but the guard flag
  and the credited value, or, in \<open>distributeFund\<close> alone, at the payment, with the pool
  written.
\<close>

lemma createDisasterEvent_body_rejected:
  "createDisasterEvent_body e t l h sc p d a s = (Inl err, s') \<Longrightarrow>
     err \<noteq> TransferFailed \<and> s' = s"
  by (auto simp: createDisasterEvent_body_def Let_def checked_add_def
        split: if_splits sum.splits)

lemma verifyDisasterEvent_body_rejected:
  "verifyDisasterEvent_body e i s = (Some err, s') \<Longrightarrow> err \<noteq> TransferFailed \<and> s' = s"
  by (auto simp: verifyDisasterEvent_body_def Let_def split: if_splits)

lemma donateToEvent_body_rejected:
  "donateToEvent_body e i p v s = (Some err, s') \<Longrightarrow>
     err \<noteq> TransferFailed \<and> s'\<lparr>entered := entered s, balance := balance s\<rparr> = s"
  by (auto simp: donateToEvent_body_def Let_def checked_add_def split: if_splits sum.splits)

lemma createAndApproveFund_body_rejected:
  "createAndApproveFund_body e i a s = (Some err, s') \<Longrightarrow> err \<noteq> TransferFailed \<and> s' = s"
  by (auto simp: createAndApproveFund_body_def Let_def checked_add_def
        split: if_splits sum.splits)

lemma distributeFund_body_rejected:
  "distributeFund_body e f r a s = (Some err, s') \<Longrightarrow>
     (err \<noteq> TransferFailed \<longrightarrow> s'\<lparr>entered := entered s\<rparr> = s)
     \<and> (err = TransferFailed \<longrightarrow>
          s'\<lparr>entered := entered s, disasterFunds := disasterFunds s\<rparr> = s)"
  by (auto simp: distributeFund_body_def Let_def checked_add_def transfer_def
        split: if_splits sum.splits)

lemma admin_body_rejected:
  "addAuthorizedOfficial_body e a s = (Some err, s') \<Longrightarrow> err \<noteq> TransferFailed \<and> s' = s"
  "removeAuthorizedOfficial_body e a s = (Some err, s') \<Longrightarrow> err \<noteq> TransferFailed \<and> s' = s"
  "transferOwnership_body e a s = (Some err, s') \<Longrightarrow> err \<noteq> TransferFailed \<and> s' = s"
  "renounceOwnership_body e s = (Some err, s') \<Longrightarrow> err \<noteq> TransferFailed \<and> s' = s"
  by (auto simp: addAuthorizedOfficial_body_def removeAuthorizedOfficial_body_def
        transferOwnership_body_def renounceOwnership_body_def split: if_splits)

lemma body_rejected:
  assumes "body e c s = (Some err, s')"
  shows "(err \<noteq> TransferFailed \<longrightarrow> s'\<lparr>entered := entered s, balance := balance s\<rparr> = s)
     \<and> (err = TransferFailed \<longrightarrow>
          (\<exists>f r a. c = DistributeFund f r a)
          \<and> s'\<lparr>entered := entered s, disasterFunds := disasterFunds s\<rparr> = s)"
proof (cases c)
  case (CreateDisasterEvent t l h sc p d a)
  with assms have "createDisasterEvent_body e t l h sc p d a s = (Inl err, s')"
    by (auto split: prod.splits sum.splits)
  from createDisasterEvent_body_rejected[OF this] show ?thesis by simp
next
  case (VerifyDisasterEvent i)
  with assms verifyDisasterEvent_body_rejected[of e i s err s'] show ?thesis by simp
next
  case (DonateToEvent i p v)
  with assms donateToEvent_body_rejected[of e i p v s err s'] show ?thesis by simp
next
  case (CreateAndApproveFund i a)
  with assms createAndApproveFund_body_rejected[of e i a s err s'] show ?thesis by simp
next
  case (DistributeFund f r a)
  with assms have d: "distributeFund_body e f r a s = (Some err, s')" by simp
  note x = distributeFund_body_rejected[OF d]
  show ?thesis
  proof (cases "err = TransferFailed")
    case True
    with x DistributeFund show ?thesis by simp
  next
    case False
    with x have "s'\<lparr>entered := entered s\<rparr> = s" by simp
    then have "s'\<lparr>entered := entered s\<rparr>\<lparr>balance := balance s\<rparr> = s\<lparr>balance := balance s\<rparr>"
      by simp
    with False show ?thesis by simp
  qed
next
  case (AddAuthorizedOfficial a)
  with assms admin_body_rejected(1)[of e a s err s'] show ?thesis by simp
next
  case (RemoveAuthorizedOfficial a)
  with assms admin_body_rejected(2)[of e a s err s'] show ?thesis by simp
next
  case (TransferOwnership a)
  with assms admin_body_rejected(3)[of e a s err s'] show ?thesis by simp
next
  case RenounceOwnership
  with assms admin_body_rejected(4)[of e s err s'] show ?thesis by simp
next
  case (Receive v)
  with assms show ?thesis by simp
qed

text \<open>
  Claim C7. A rejected operation changes nothing. Every rejection of every entry point
  (\<open>createDisasterEvent\<close>, \<open>verifyDisasterEvent\<close>, \<open>createAndApproveFund\<close>,
  \<open>distributeFund\<close>, \<open>donateToEvent\<close> and the admin functions) is a revert of the
  transaction, so the storage after the call is the storage before it and a sequence of
  calls continues as if the rejected call had not been made. In the code itself every
  check comes before the first write to a record, a counter, the fingerprint set, the id
  lists or the log: where a call is rejected by a check, the storage it has left differs
  from the storage before the call in nothing but the reentrancy flag and the value
  credited with the call. The one rejection that comes after a write is the failed
  payment at the end of \<open>distributeFund\<close>, which leaves the pool written and is undone
  by the revert alone.
\<close>

theorem rejected_call_changes_nothing:
  assumes "exec e c s = Inl err"
  shows "apply_call e c s = s \<and> run s ((e, c) # cs) = run s cs
     \<and> fst (body e c s) = Some err
     \<and> (err \<noteq> TransferFailed \<longrightarrow>
          (snd (body e c s))\<lparr>entered := entered s, balance := balance s\<rparr> = s)
     \<and> (err = TransferFailed \<longrightarrow>
          (\<exists>f r a. c = DistributeFund f r a)
          \<and> (snd (body e c s))\<lparr>entered := entered s, disasterFunds := disasterFunds s\<rparr> = s)"
proof -
  from assms have 1: "apply_call e c s = s \<and> run s ((e, c) # cs) = run s cs"
    by (simp add: apply_call_def)
  from assms have "outcome (body e c s) = Inl err" by (simp add: exec_body)
  then have b: "body e c s = (Some err, snd (body e c s))"
    by (cases "body e c s") (auto simp: outcome_def split: option.splits)
  then have 2: "fst (body e c s) = Some err" by (metis fst_conv)
  from 1 2 body_rejected[OF b] show ?thesis by blast
qed

theorem rejected_call_changes_nothing_witness:
  "exec by_official (DistributeFund 1 7 50000) ledger_partial
     = Inl (Revert ''Insufficient fund balance'')
   \<and> Revert ''Insufficient fund balance'' \<noteq> TransferFailed
   \<and> apply_call by_official (DistributeFund 1 7 50000) ledger_partial = ledger_partial
   \<and> run ledger_partial [(by_official, DistributeFund 1 7 50000),
        (by_official, DistributeFund 1 7 40000)] = ledger_paid
   \<and> snd (body by_official (DistributeFund 1 7 50000) ledger_partial)
        = ledger_partial\<lparr>entered := True\<rparr>
   \<and> exec by_official_refused (DistributeFund 1 7 40000) ledger_partial = Inl TransferFailed
   \<and> apply_call by_official_refused (DistributeFund 1 7 40000) ledger_partial = ledger_partial
   \<and> fund_status (disasterFunds
        (snd (body by_official_refused (DistributeFund 1 7 40000) ledger_partial)) 1) = DISTRIBUTED
   \<and> (snd (body by_official_refused (DistributeFund 1 7 40000) ledger_partial))
        \<lparr>entered := entered ledger_partial, disasterFunds := disasterFunds ledger_partial\<rparr>
        = ledger_partial"
proof -
  have r: "exec by_official (DistributeFund 1 7 50000) ledger_partial
      = Inl (Revert ''Insufficient fund balance'')"
    by (simp add: ledger_partial_eq by_official_def distributeFund_def onlyAuthorized_def
          fundExists_def checked_add_def)
  have f: "exec by_official_refused (DistributeFund 1 7 40000) ledger_partial = Inl TransferFailed"
    by (simp add: ledger_partial_eq by_official_refused_def distributeFund_def transfer_def
          onlyAuthorized_def fundExists_def checked_add_def)
  have d1: "snd (body by_official (DistributeFund 1 7 50000) ledger_partial)
        = ledger_partial\<lparr>entered := True\<rparr>"
    by (simp add: ledger_partial_eq by_official_def distributeFund_body_def onlyAuthorized_def
          fundExists_def checked_add_def)
  have d2: "fund_status (disasterFunds
        (snd (body by_official_refused (DistributeFund 1 7 40000) ledger_partial)) 1) = DISTRIBUTED"
    by (simp add: ledger_partial_eq by_official_refused_def distributeFund_body_def transfer_def
          onlyAuthorized_def fundExists_def checked_add_def)
  from rejected_call_changes_nothing[OF r, of "[(by_official, DistributeFund 1 7 40000)]"]
    rejected_call_changes_nothing[OF f, of "[]"]
  show ?thesis using r f d1 d2 by (simp add: ledger_paid_def)
qed

subsection \<open>Fund creation\<close>

text \<open>
  Claim C5. \<open>createAndApproveFund\<close>, called by an authorized principal for an existing
  event: when the event is not verified the call is rejected with a validation error
  ("Event not verified", or "Amount must be greater than 0" when the amount is 0, which is
  checked first) and nothing changes; when the event is verified and the amount is
  positive the call succeeds and the new pool, under the next fund id, has status
  APPROVED, distributed amount 0 and the given total. An amount of 0 is always rejected.
  The success needs the fund counter below \<open>2^256 - 1\<close>, where its checked increment
  does not revert.
\<close>

theorem createAndApproveFund_gate:
  "(onlyAuthorized e s \<and> eventExists i s \<and> \<not> isVerified (disasterEvents s i) \<longrightarrow>
      createAndApproveFund e i a s =
        Inl (Revert (if a > 0 then ''Event not verified'' else ''Amount must be greater than 0''))
      \<and> apply_call e (CreateAndApproveFund i a) s = s)
   \<and> (onlyAuthorized e s \<and> eventExists i s \<and> isVerified (disasterEvents s i) \<and> a > 0
        \<and> unat (fundCounter s) + 1 < 2 ^ 256 \<longrightarrow>
      createAndApproveFund e i a s = Inr (apply_call e (CreateAndApproveFund i a) s)
      \<and> fundCounter (apply_call e (CreateAndApproveFund i a) s) = fundCounter s + 1
      \<and> \<not> fundExists (fundCounter s + 1) s
      \<and> fundExists (fundCounter s + 1) (apply_call e (CreateAndApproveFund i a) s)
      \<and> disasterFunds (apply_call e (CreateAndApproveFund i a) s) (fundCounter s + 1) =
          \<lparr>fundId = fundCounter s + 1, fund_eventId = i, totalAmount = a,
           distributedAmount = 0, createdAt = block_timestamp e, approvedBy = sender e,
           fund_status = APPROVED\<rparr>)
   \<and> (a = 0 \<longrightarrow>
      isl (createAndApproveFund e i a s)
      \<and> apply_call e (CreateAndApproveFund i a) s = s
      \<and> (onlyAuthorized e s \<and> eventExists i s \<longrightarrow>
           createAndApproveFund e i a s = Inl (Revert ''Amount must be greater than 0'')))"
proof (intro conjI impI)
  assume "onlyAuthorized e s \<and> eventExists i s \<and> \<not> isVerified (disasterEvents s i)"
  then show "createAndApproveFund e i a s =
      Inl (Revert (if a > 0 then ''Event not verified'' else ''Amount must be greater than 0''))"
    and "apply_call e (CreateAndApproveFund i a) s = s"
    by (simp_all add: createAndApproveFund_def apply_call_def)
next
  assume a: "onlyAuthorized e s \<and> eventExists i s \<and> isVerified (disasterEvents s i) \<and> a > 0
      \<and> unat (fundCounter s) + 1 < 2 ^ 256"
  let ?s' = "apply_call e (CreateAndApproveFund i a) s"
  from a have n: "unat (fundCounter s) + 1 < 2 ^ 256" by simp
  from a show ok: "createAndApproveFund e i a s = Inr ?s'"
    by (simp add: createAndApproveFund_def apply_call_def checked_add_def Let_def)
  note r = createAndApproveFund_Inr[OF ok]
  from r show "fundCounter ?s' = fundCounter s + 1" by simp
  show "\<not> fundExists (fundCounter s + 1) s"
    by (simp add: fundExists_def succ_not_le_word[OF n])
  show "fundExists (fundCounter s + 1) ?s'"
    using r by (simp add: fundExists_def succ_not_le_word(2)[OF n])
  show "disasterFunds ?s' (fundCounter s + 1) =
          \<lparr>fundId = fundCounter s + 1, fund_eventId = i, totalAmount = a,
           distributedAmount = 0, createdAt = block_timestamp e, approvedBy = sender e,
           fund_status = APPROVED\<rparr>"
    using r by simp
next
  assume z: "a = 0"
  then show "isl (createAndApproveFund e i a s)"
    by (simp add: createAndApproveFund_def)
  then show "apply_call e (CreateAndApproveFund i a) s = s"
    by (cases "createAndApproveFund e i a s") (simp_all add: apply_call_def)
  assume "onlyAuthorized e s \<and> eventExists i s"
  with z show "createAndApproveFund e i a s = Inl (Revert ''Amount must be greater than 0'')"
    by (simp add: createAndApproveFund_def)
qed

theorem createAndApproveFund_gate_witness:
  "onlyAuthorized by_official ledger_reported \<and> eventExists 1 ledger_reported
   \<and> \<not> isVerified (disasterEvents ledger_reported 1)
   \<and> createAndApproveFund by_official 1 100000 ledger_reported = Inl (Revert ''Event not verified'')
   \<and> createAndApproveFund by_official 1 0 ledger_reported
        = Inl (Revert ''Amount must be greater than 0'')
   \<and> onlyAuthorized by_official ledger_verified \<and> eventExists 1 ledger_verified
   \<and> isVerified (disasterEvents ledger_verified 1) \<and> (100000 :: uint256) > 0
   \<and> unat (fundCounter ledger_verified) + 1 < 2 ^ 256
   \<and> createAndApproveFund by_official 1 100000 ledger_verified = Inr ledger_approved
   \<and> fundExists 1 ledger_approved
   \<and> fund_status (disasterFunds ledger_approved 1) = APPROVED
   \<and> distributedAmount (disasterFunds ledger_approved 1) = 0"
proof -
  have h: "onlyAuthorized by_official ledger_reported" "eventExists 1 ledger_reported"
    "\<not> isVerified (disasterEvents ledger_reported 1)"
    "onlyAuthorized by_official ledger_verified" "eventExists 1 ledger_verified"
    "isVerified (disasterEvents ledger_verified 1)" "(100000 :: uint256) > 0"
    "unat (fundCounter ledger_verified) + 1 < 2 ^ 256" "fundCounter ledger_verified = 0"
    by (simp_all add: ledger_reported_eq ledger_verified_eq onlyAuthorized_def eventExists_def
          by_official_def)
  have 1: "createAndApproveFund by_official 1 100000 ledger_reported
      = Inl (Revert ''Event not verified'')"
    using createAndApproveFund_gate[of by_official ledger_reported 1 100000] h by simp
  have 2: "createAndApproveFund by_official 1 0 ledger_reported
      = Inl (Revert ''Amount must be greater than 0'')"
    using createAndApproveFund_gate[of by_official ledger_reported 1 0] h by simp
  have 3: "createAndApproveFund by_official 1 100000 ledger_verified = Inr ledger_approved
      \<and> fundExists 1 ledger_approved
      \<and> disasterFunds ledger_approved 1 =
          \<lparr>fundId = 1, fund_eventId = 1, totalAmount = 100000, distributedAmount = 0,
           createdAt = block_timestamp by_official, approvedBy = sender by_official,
           fund_status = APPROVED\<rparr>"
    using createAndApproveFund_gate[of by_official ledger_verified 1 100000] h
    by (simp add: ledger_approved_def[symmetric])
  from h 1 2 3 show ?thesis by simp
qed

subsection \<open>Donations\<close>

lemma transaction_kept_step:
  assumes "transactionExists t s"
  shows "transactionExists t (apply_call e c s)
     \<and> fundTransactions (apply_call e c s) t = fundTransactions s t"
proof (cases "exec e c s")
  case (Inl err)
  with assms show ?thesis by (simp add: apply_call_def)
next
  case (Inr s')
  have "transactionExists t s' \<and> fundTransactions s' t = fundTransactions s t"
  proof (cases c)
    case (CreateDisasterEvent ty l h sc p d a)
    with Inr obtain j where "createDisasterEvent e ty l h sc p d a s = Inr (j, s')"
      by (auto split: sum.splits)
    from createDisasterEvent_Inr[OF this] assms show ?thesis
      by (auto simp: transactionExists_def)
  next
    case (VerifyDisasterEvent j)
    with Inr assms verifyDisasterEvent_Inr[of e j s s'] show ?thesis
      by (auto simp: transactionExists_def)
  next
    case (DonateToEvent j p v)
    with Inr have ok: "donateToEvent e j p v s = Inr s'" by simp
    note r = donateToEvent_Inr[OF ok]
    from r have n: "unat (transactionCounter s) + 1 < 2 ^ 256" by simp
    from assms r show ?thesis
      by (auto simp: transactionExists_def le_succ_word[OF n] succ_not_le_word[OF n])
  next
    case (CreateAndApproveFund j a)
    with Inr assms createAndApproveFund_Inr[of e j a s s'] show ?thesis
      by (auto simp: transactionExists_def)
  next
    case (DistributeFund f r a)
    with Inr assms distributeFund_Inr[of e f r a s s'] show ?thesis
      by (auto simp: transactionExists_def)
  next
    case (AddAuthorizedOfficial a)
    with Inr assms admin_Inr(1)[of e a s s'] show ?thesis by (auto simp: transactionExists_def)
  next
    case (RemoveAuthorizedOfficial a)
    with Inr assms admin_Inr(2)[of e a s s'] show ?thesis by (auto simp: transactionExists_def)
  next
    case (TransferOwnership a)
    with Inr assms admin_Inr(3)[of e a s s'] show ?thesis by (auto simp: transactionExists_def)
  next
    case RenounceOwnership
    with Inr assms admin_Inr(4)[of e s s'] show ?thesis by (auto simp: transactionExists_def)
  next
    case (Receive v)
    with Inr assms admin_Inr(5)[of v s s'] show ?thesis by (auto simp: transactionExists_def)
  qed
  with Inr show ?thesis by (simp add: apply_call_def)
qed

lemma transaction_kept_run:
  "transactionExists t s \<Longrightarrow>
     transactionExists t (run s cs) \<and> fundTransactions (run s cs) t = fundTransactions s t"
  by (induction s cs rule: run.induct) (simp_all add: transaction_kept_step)

text \<open>
  Claim C8. A donation (\<open>donateToEvent\<close>) is recorded only for an event that exists and is
  verified and for a strictly positive amount. The record it creates, under the next
  transaction id, has status PENDING and the ledger-verified flag set, and no later call
  of any function of the contract changes that record.
\<close>

theorem donateToEvent_record:
  assumes "donateToEvent e i p v s = Inr s'"
  shows "eventExists i s \<and> isVerified (disasterEvents s i) \<and> v > 0
     \<and> transactionCounter s' = transactionCounter s + 1
     \<and> transactionExists (transactionCounter s') s'
     \<and> fundTransactions s' (transactionCounter s') =
         \<lparr>transactionId = transactionCounter s', tx_eventId = i, donor = sender e,
          amount = v, tx_timestamp = block_timestamp e, tx_status = PENDING,
          purpose = p, isBlockchainVerified = True\<rparr>
     \<and> fundTransactions (run s' cs) (transactionCounter s')
         = fundTransactions s' (transactionCounter s')"
proof -
  note r = donateToEvent_Inr[OF assms]
  from r have n: "unat (transactionCounter s) + 1 < 2 ^ 256" by simp
  from r have c: "transactionCounter s' = transactionCounter s + 1" by simp
  from r have ex: "transactionExists (transactionCounter s') s'"
    by (simp add: transactionExists_def succ_not_le_word(2)[OF n])
  from r have rec: "fundTransactions s' (transactionCounter s') =
         \<lparr>transactionId = transactionCounter s', tx_eventId = i, donor = sender e,
          amount = v, tx_timestamp = block_timestamp e, tx_status = PENDING,
          purpose = p, isBlockchainVerified = True\<rparr>"
    by simp
  from r c ex rec transaction_kept_run[OF ex, of cs] show ?thesis by simp
qed

theorem donateToEvent_record_witness:
  "donateToEvent by_donor 1 ''relief'' 100000 ledger_approved = Inr ledger_funded
   \<and> eventExists 1 ledger_approved \<and> isVerified (disasterEvents ledger_approved 1)
   \<and> transactionCounter ledger_funded = 1
   \<and> tx_status (fundTransactions ledger_funded 1) = PENDING
   \<and> isBlockchainVerified (fundTransactions ledger_funded 1)
   \<and> fundTransactions ledger_paid 1 = fundTransactions ledger_funded 1"
proof -
  have ok: "donateToEvent by_donor 1 ''relief'' 100000 ledger_approved = Inr ledger_funded"
    by (simp add: ledger_funded_eq ledger_approved_eq by_donor_def donateToEvent_def
          eventExists_def checked_add_def)
  have c: "transactionCounter ledger_funded = 1" by (simp add: ledger_funded_eq)
  have p: "run ledger_funded [(by_official, DistributeFund 1 7 60000),
      (by_official, DistributeFund 1 7 40000)] = ledger_paid"
    by (simp add: ledger_paid_def ledger_partial_def)
  from donateToEvent_record[OF ok, of "[(by_official, DistributeFund 1 7 60000),
      (by_official, DistributeFund 1 7 40000)]"]
  show ?thesis using ok c p by simp
qed

subsection \<open>Distribution of nothing\<close>

text \<open>
  Claim C10 says that an authorized call of \<open>distributeFund\<close> with amount 0 on a pool in
  status APPROVED succeeds and still emits the distribution event. The function ends
  with \<open>_recipient.transfer(_amount)\<close>, also for amount 0, and a recipient that does
  not take the payment makes it revert: on the ledger in use, after 60000 have been paid
  out of the pool, the official's call with amount 0 to address 7, which refuses
  payments, is rejected and nothing is logged.
\<close>

theorem zero_amount_distribution_refused:
  "reachable ledger_partial \<and> onlyAuthorized by_official_refused ledger_partial
   \<and> fundExists 1 ledger_partial \<and> fund_status (disasterFunds ledger_partial 1) = APPROVED
   \<and> (0 :: uint256) \<le> balance ledger_partial
   \<and> distributeFund by_official_refused 1 7 0 ledger_partial = Inl TransferFailed
   \<and> emitted (apply_call by_official_refused (DistributeFund 1 7 0) ledger_partial)
       = emitted ledger_partial"
proof -
  have r: "reachable ledger_partial" by (rule reachable_ledgers)
  have "onlyAuthorized by_official_refused ledger_partial
   \<and> fundExists 1 ledger_partial \<and> fund_status (disasterFunds ledger_partial 1) = APPROVED
   \<and> (0 :: uint256) \<le> balance ledger_partial
   \<and> distributeFund by_official_refused 1 7 0 ledger_partial = Inl TransferFailed"
    by (simp add: ledger_partial_eq by_official_refused_def distributeFund_def transfer_def
          onlyAuthorized_def fundExists_def checked_add_def)
  then show ?thesis using r by (simp add: apply_call_def)
qed

text \<open>
  Claim C10, amended. \<open>distributeFund\<close> does not ask for a positive amount. In every
  reachable storage, an authorized call with amount 0 on an existing pool in status
  APPROVED passes every check (the balance check \<open>0 \<le> balance\<close> always holds). When
  the recipient takes the empty payment (it is the contract itself or it accepts
  payments) the call succeeds: the pool with its distributed amount and its status is
  unchanged, and the only effect is one more \<open>FundDistributed\<close> event with amount 0 in
  the log. When the recipient refuses the payment the call is rejected with the failure
  of the transfer and changes nothing.
\<close>

theorem distributeFund_zero_amount:
  assumes "reachable s" and "onlyAuthorized e s" and "fundExists f s"
    and "fund_status (disasterFunds s f) = APPROVED"
  shows "(r = self s \<or> accepts e r \<longrightarrow>
      distributeFund e f r 0 s =
        Inr (s\<lparr>emitted := emitted s @ [FundDistributed f (fund_eventId (disasterFunds s f)) 0]\<rparr>)
      \<and> distributedAmount (disasterFunds (apply_call e (DistributeFund f r 0) s) f)
          = distributedAmount (disasterFunds s f)
      \<and> fund_status (disasterFunds (apply_call e (DistributeFund f r 0) s) f) = APPROVED
      \<and> emitted (apply_call e (DistributeFund f r 0) s)
          = emitted s @ [FundDistributed f (fund_eventId (disasterFunds s f)) 0])
     \<and> (r \<noteq> self s \<and> \<not> accepts e r \<longrightarrow>
      distributeFund e f r 0 s = Inl TransferFailed
      \<and> apply_call e (DistributeFund f r 0) s = s)"
proof -
  note inv = reachable_invariant[OF assms(1)]
  from invariantD(1)[OF inv] have ne: "\<not> entered s" .
  from invariantD(2)[OF inv, of f] assms(3) have ok: "fund_ok (disasterFunds s f)"
    by (simp add: fund_slot_ok_def)
  with assms(4) have le: "distributedAmount (disasterFunds s f) \<le> totalAmount (disasterFunds s f)"
    and neq: "distributedAmount (disasterFunds s f) \<noteq> totalAmount (disasterFunds s f)"
    by (auto simp: fund_ok_def)
  then have lt: "\<not> totalAmount (disasterFunds s f) \<le> distributedAmount (disasterFunds s f)"
    by auto
  have ca: "checked_add (distributedAmount (disasterFunds s f)) 0
      = Inr (distributedAmount (disasterFunds s f))"
    using unsigned_less[of "distributedAmount (disasterFunds s f)", where 'a = nat]
    by (simp add: checked_add_def)
  have 1: "distributeFund e f r 0 s =
      Inr (s\<lparr>emitted := emitted s @ [FundDistributed f (fund_eventId (disasterFunds s f)) 0]\<rparr>)"
    if "r = self s \<or> accepts e r"
    using that assms(2-4) ne le lt ca
    by (cases s) (auto simp: distributeFund_def transfer_def Let_def)
  have 2: "distributeFund e f r 0 s = Inl TransferFailed"
    if "r \<noteq> self s \<and> \<not> accepts e r"
    using that assms(2-4) ne le lt ca
    by (simp add: distributeFund_def transfer_def Let_def)
  from 1 2 assms(4) show ?thesis by (auto simp: apply_call_def)
qed

theorem distributeFund_zero_amount_witness:
  "reachable ledger_partial \<and> onlyAuthorized by_official ledger_partial
   \<and> fundExists 1 ledger_partial \<and> fund_status (disasterFunds ledger_partial 1) = APPROVED
   \<and> accepts by_official 7
   \<and> distributeFund by_official 1 7 0 ledger_partial =
       Inr (ledger_partial\<lparr>emitted := emitted ledger_partial @ [FundDistributed 1 1 0]\<rparr>)
   \<and> distributedAmount (disasterFunds
        (apply_call by_official (DistributeFund 1 7 0) ledger_partial) 1) = 60000
   \<and> onlyAuthorized by_official_refused ledger_partial
   \<and> 7 \<noteq> self ledger_partial \<and> \<not> accepts by_official_refused 7
   \<and> distributeFund by_official_refused 1 7 0 ledger_partial = Inl TransferFailed
   \<and> apply_call by_official_refused (DistributeFund 1 7 0) ledger_partial = ledger_partial"
proof -
  have r: "reachable ledger_partial" by (rule reachable_ledgers)
  have h: "onlyAuthorized by_official ledger_partial"
    "fundExists 1 ledger_partial" "fund_status (disasterFunds ledger_partial 1) = APPROVED"
    "accepts by_official 7" "fund_eventId (disasterFunds ledger_partial 1) = 1"
    "distributedAmount (disasterFunds ledger_partial 1) = 60000"
    "onlyAuthorized by_official_refused ledger_partial"
    "7 \<noteq> self ledger_partial" "\<not> accepts by_official_refused 7"
    by (simp_all add: ledger_partial_eq onlyAuthorized_def fundExists_def by_official_def
          by_official_refused_def)
  from distributeFund_zero_amount[OF r h(1-3), of 7]
    distributeFund_zero_amount[OF r h(7) h(2,3), of 7] r h
  show ?thesis by simp
qed

subsection \<open>Fingerprints\<close>

lemma event_kept_step:
  assumes "eventExists i s"
  shows "eventExists i (apply_call e c s)
     \<and> (disasterEvents (apply_call e c s) i)\<lparr>isVerified := True\<rparr>
         = (disasterEvents s i)\<lparr>isVerified := True\<rparr>"
proof (cases "exec e c s")
  case (Inl err)
  with assms show ?thesis by (simp add: apply_call_def)
next
  case (Inr s')
  have "eventExists i s'
      \<and> (disasterEvents s' i)\<lparr>isVerified := True\<rparr> = (disasterEvents s i)\<lparr>isVerified := True\<rparr>"
  proof (cases c)
    case (CreateDisasterEvent t l h sc p d a)
    with Inr obtain j where "createDisasterEvent e t l h sc p d a s = Inr (j, s')"
      by (auto split: sum.splits)
    note r = createDisasterEvent_Inr[OF this]
    from r have n: "unat (eventCounter s) + 1 < 2 ^ 256" by simp
    from assms r show ?thesis
      by (auto simp: eventExists_def le_succ_word[OF n] succ_not_le_word[OF n])
  next
    case (VerifyDisasterEvent j)
    with Inr assms verifyDisasterEvent_Inr[of e j s s'] show ?thesis
      by (auto simp: eventExists_def)
  next
    case (DonateToEvent j p v)
    with Inr assms donateToEvent_Inr[of e j p v s s'] show ?thesis
      by (auto simp: eventExists_def)
  next
    case (CreateAndApproveFund j a)
    with Inr assms createAndApproveFund_Inr[of e j a s s'] show ?thesis
      by (auto simp: eventExists_def)
  next
    case (DistributeFund f r a)
    with Inr assms distributeFund_Inr[of e f r a s s'] show ?thesis
      by (auto simp: eventExists_def)
  next
    case (AddAuthorizedOfficial a)
    with Inr assms admin_Inr(1)[of e a s s'] show ?thesis by (auto simp: eventExists_def)
  next
    case (RemoveAuthorizedOfficial a)
    with Inr assms admin_Inr(2)[of e a s s'] show ?thesis by (auto simp: eventExists_def)
  next
    case (TransferOwnership a)
    with Inr assms admin_Inr(3)[of e a s s'] show ?thesis by (auto simp: eventExists_def)
  next
    case RenounceOwnership
    with Inr assms admin_Inr(4)[of e s s'] show ?thesis by (auto simp: eventExists_def)
  next
    case (Receive v)
    with Inr assms admin_Inr(5)[of v s s'] show ?thesis by (auto simp: eventExists_def)
  qed
  with Inr show ?thesis by (simp add: apply_call_def)
qed

lemma event_kept_run:
  "eventExists i s \<Longrightarrow>
     eventExists i (run s cs)
     \<and> (disasterEvents (run s cs) i)\<lparr>isVerified := True\<rparr> = (disasterEvents s i)\<lparr>isVerified := True\<rparr>"
  by (induction s cs rule: run.induct) (simp_all add: event_kept_step)

lemma reachable_processed:
  assumes "reachable s" "eventExists i s"
  shows "processedImageHashes s (imageHash (disasterEvents s i))"
  using invariantD(3)[OF reachable_invariant[OF assms(1)], of i] assms(2)
  by (simp add: event_slot_ok_def)

lemma reachable_hashes_unique:
  assumes "reachable s" "eventExists i s" "eventExists j s"
    "imageHash (disasterEvents s i) = imageHash (disasterEvents s j)"
  shows "i = j"
  using invariantD(4)[OF reachable_invariant[OF assms(1)]] assms(2-4)
  by (simp add: hashes_unique_def)

lemma processed_rejected:
  assumes "processedImageHashes s h"
  shows "isl (createDisasterEvent e t l h sc p d a s)"
    and "apply_call e (CreateDisasterEvent t l h sc p d a) s = s"
    and "onlyAuthorized e s \<Longrightarrow> sc \<le> 100 \<Longrightarrow>
      createDisasterEvent e t l h sc p d a s = Inl (Revert ''Image already processed'')"
  using assms by (simp_all add: createDisasterEvent_def apply_call_def)

text \<open>
  Claim C2 says that a second \<open>createDisasterEvent\<close> with a fingerprint already
  processed fails with DuplicateError. The contract checks the caller and the score
  before the fingerprint: on the ledger in use, whose one event has the fingerprint
  "Qm01", a repeat of that fingerprint by the official with a score of 101 is rejected
  with "Invalid severity score", and a repeat by the donor, who is not authorized, with
  "Not authorized".
\<close>

theorem duplicate_fingerprint_other_errors:
  "reachable ledger_paid \<and> eventExists 1 ledger_paid
   \<and> imageHash (disasterEvents ledger_paid 1) = ''Qm01''
   \<and> processedImageHashes ledger_paid ''Qm01''
   \<and> onlyAuthorized by_official ledger_paid
   \<and> createDisasterEvent by_official CYCLONE ''Odisha'' ''Qm01'' 101 500 20 9 ledger_paid
       = Inl (Revert ''Invalid severity score'')
   \<and> Revert ''Invalid severity score'' \<noteq> Revert ''Image already processed''
   \<and> createDisasterEvent by_donor CYCLONE ''Odisha'' ''Qm01'' 30 500 20 9 ledger_paid
       = Inl (Revert ''Not authorized'')
   \<and> Revert ''Not authorized'' \<noteq> Revert ''Image already processed''"
proof -
  have r: "reachable ledger_paid" by (rule reachable_ledgers)
  have "eventExists 1 ledger_paid
   \<and> imageHash (disasterEvents ledger_paid 1) = ''Qm01''
   \<and> processedImageHashes ledger_paid ''Qm01''
   \<and> onlyAuthorized by_official ledger_paid
   \<and> createDisasterEvent by_official CYCLONE ''Odisha'' ''Qm01'' 101 500 20 9 ledger_paid
       = Inl (Revert ''Invalid severity score'')
   \<and> createDisasterEvent by_donor CYCLONE ''Odisha'' ''Qm01'' 30 500 20 9 ledger_paid
       = Inl (Revert ''Not authorized'')"
    by (simp add: ledger_paid_eq by_official_def by_donor_def createDisasterEvent_def
          onlyAuthorized_def eventExists_def)
  then show ?thesis using r by simp
qed

text \<open>
  Claim C2, amended. In every reachable storage the fingerprint (image hash) is unique
  across the events, and the fingerprint of every event is marked as processed. A
  \<open>createDisasterEvent\<close> call with a processed fingerprint always fails and changes
  nothing, so it neither overwrites the first event nor creates one. It fails with
  "Image already processed" (DuplicateError) when the caller is authorized and the score
  is at most 100; a caller that is not authorized gets "Not authorized" and an
  authorized call with a score above 100 gets "Invalid severity score", the two checks
  that come before the fingerprint's. After a successful creation the fingerprint stays
  processed for ever and the event keeps its record, but for the verification flag,
  whatever calls follow.
\<close>

theorem fingerprint_unique:
  assumes "reachable s"
  shows "(eventExists i s \<and> eventExists j s
          \<and> imageHash (disasterEvents s i) = imageHash (disasterEvents s j) \<longrightarrow> i = j)
     \<and> (eventExists i s \<longrightarrow> processedImageHashes s (imageHash (disasterEvents s i)))
     \<and> (processedImageHashes s h \<longrightarrow>
          isl (createDisasterEvent e t l h sc p d a s)
          \<and> apply_call e (CreateDisasterEvent t l h sc p d a) s = s
          \<and> createDisasterEvent e t l h sc p d a s =
               Inl (Revert (if \<not> onlyAuthorized e s then ''Not authorized''
                            else if \<not> sc \<le> 100 then ''Invalid severity score''
                            else ''Image already processed''))
          \<and> (onlyAuthorized e s \<and> sc \<le> 100 \<longrightarrow>
               createDisasterEvent e t l h sc p d a s = Inl (Revert ''Image already processed'')))
     \<and> (createDisasterEvent e t l h sc p d a s = Inr (k, s') \<longrightarrow>
          eventExists k (run s' cs)
          \<and> imageHash (disasterEvents (run s' cs) k) = h
          \<and> (disasterEvents (run s' cs) k)\<lparr>isVerified := True\<rparr>
              = (disasterEvents s' k)\<lparr>isVerified := True\<rparr>
          \<and> processedImageHashes (run s' cs) h)"
proof (intro conjI impI)
  assume "eventExists i s \<and> eventExists j s
      \<and> imageHash (disasterEvents s i) = imageHash (disasterEvents s j)"
  with reachable_hashes_unique[OF assms] show "i = j" by simp
next
  assume "eventExists i s"
  with reachable_processed[OF assms] show "processedImageHashes s (imageHash (disasterEvents s i))" .
next
  assume p: "processedImageHashes s h"
  from processed_rejected(1)[OF p] show "isl (createDisasterEvent e t l h sc p d a s)" .
  from processed_rejected(2)[OF p] show "apply_call e (CreateDisasterEvent t l h sc p d a) s = s" .
  from p show "createDisasterEvent e t l h sc p d a s =
               Inl (Revert (if \<not> onlyAuthorized e s then ''Not authorized''
                            else if \<not> sc \<le> 100 then ''Invalid severity score''
                            else ''Image already processed''))"
    by (simp add: createDisasterEvent_def)
  assume "onlyAuthorized e s \<and> sc \<le> 100"
  with processed_rejected(3)[OF p]
  show "createDisasterEvent e t l h sc p d a s = Inl (Revert ''Image already processed'')" by simp
next
  assume ok: "createDisasterEvent e t l h sc p d a s = Inr (k, s')"
  note r = createDisasterEvent_Inr[OF ok]
  from r have n: "unat (eventCounter s) + 1 < 2 ^ 256" by simp
  from r have ex: "eventExists k s'" by (simp add: eventExists_def succ_not_le_word(2)[OF n])
  from r have hk: "imageHash (disasterEvents s' k) = h" by simp
  from ok have "s' = apply_call e (CreateDisasterEvent t l h sc p d a) s"
    by (simp add: apply_call_def)
  with assms have "reachable s'" by (simp add: reachable.step)
  then have rr: "reachable (run s' cs)" by (rule reachable_run)
  note k = event_kept_run[OF ex, of cs]
  from k show "eventExists k (run s' cs)" by simp
  from k show kept: "(disasterEvents (run s' cs) k)\<lparr>isVerified := True\<rparr>
      = (disasterEvents s' k)\<lparr>isVerified := True\<rparr>" by simp
  have "imageHash (disasterEvents (run s' cs) k)
      = imageHash ((disasterEvents (run s' cs) k)\<lparr>isVerified := True\<rparr>)" by simp
  also have "\<dots> = imageHash ((disasterEvents s' k)\<lparr>isVerified := True\<rparr>)" by (simp only: kept)
  finally show hh: "imageHash (disasterEvents (run s' cs) k) = h" using hk by simp
  from reachable_processed[OF rr, of k] k hh show "processedImageHashes (run s' cs) h" by simp
qed

theorem fingerprint_unique_witness:
  "reachable ledger_new
   \<and> createDisasterEvent by_official FLOOD ''Kerala'' ''Qm01'' 65 10000 75 50 ledger_new
       = Inr (1, ledger_reported)
   \<and> eventExists 1 ledger_paid \<and> imageHash (disasterEvents ledger_paid 1) = ''Qm01''
   \<and> processedImageHashes ledger_paid ''Qm01''
   \<and> reachable ledger_paid \<and> onlyAuthorized by_official ledger_paid \<and> (30 :: uint256) \<le> 100
   \<and> createDisasterEvent by_official CYCLONE ''Odisha'' ''Qm01'' 30 500 20 9 ledger_paid
       = Inl (Revert ''Image already processed'')
   \<and> apply_call by_official (CreateDisasterEvent CYCLONE ''Odisha'' ''Qm01'' 30 500 20 9) ledger_paid
       = ledger_paid"
proof -
  have r0: "reachable ledger_new" and r1: "reachable ledger_paid"
    by (rule reachable_ledgers)+
  have ok: "createDisasterEvent by_official FLOOD ''Kerala'' ''Qm01'' 65 10000 75 50 ledger_new
      = Inr (1, ledger_reported)"
    by (simp add: ledger_reported_eq ledger_new_def by_official_def constructor_def
          createDisasterEvent_def onlyAuthorized_def checked_add_def getSeverityLevel_def)
  have p: "run ledger_reported [(by_official, VerifyDisasterEvent 1),
      (by_official, CreateAndApproveFund 1 100000), (by_donor, DonateToEvent 1 ''relief'' 100000),
      (by_official, DistributeFund 1 7 60000), (by_official, DistributeFund 1 7 40000)] = ledger_paid"
    by (simp add: ledger_paid_def ledger_partial_def ledger_funded_def ledger_approved_def
          ledger_verified_def)
  have h: "onlyAuthorized by_official ledger_paid" "(30 :: uint256) \<le> 100"
    by (simp_all add: ledger_paid_eq onlyAuthorized_def by_official_def)
  have 1: "eventExists 1 ledger_paid \<and> imageHash (disasterEvents ledger_paid 1) = ''Qm01''
      \<and> processedImageHashes ledger_paid ''Qm01''"
    using fingerprint_unique[OF r0, where e = by_official and t = FLOOD and l = "''Kerala''"
        and h = "''Qm01''" and sc = 65 and p = 10000 and d = 75 and a = 50 and k = 1
        and s' = ledger_reported and cs = "[(by_official, VerifyDisasterEvent 1),
      (by_official, CreateAndApproveFund 1 100000), (by_donor, DonateToEvent 1 ''relief'' 100000),
      (by_official, DistributeFund 1 7 60000), (by_official, DistributeFund 1 7 40000)]"]
      ok p by simp
  then have pr: "processedImageHashes ledger_paid ''Qm01''" by simp
  have 2: "createDisasterEvent by_official CYCLONE ''Odisha'' ''Qm01'' 30 500 20 9 ledger_paid
       = Inl (Revert ''Image already processed'')
     \<and> apply_call by_official (CreateDisasterEvent CYCLONE ''Odisha'' ''Qm01'' 30 500 20 9) ledger_paid
       = ledger_paid"
    using fingerprint_unique[OF r1, where i = 1 and j = 1 and e = by_official and t = CYCLONE
        and l = "''Odisha''" and h = "''Qm01''" and sc = 30 and p = 500 and d = 20 and a = 9]
      pr h by simp
  from r0 r1 ok 1 2 h show ?thesis by simp
qed

subsection \<open>Validation at event creation\<close>

text \<open>
  Claim C6 says that \<open>createDisasterEvent\<close> rejects an infrastructure-damage percentage
  outside 0 to 100. The contract does not: the only numeric argument it checks is the
  severity score. An authorized report with a damage value of 150 is accepted and stored.
\<close>

theorem createDisasterEvent_damage_unchecked:
  "onlyAuthorized by_official ledger_new \<and> (150 :: uint256) > 100
   \<and> createDisasterEvent by_official FLOOD ''Kerala'' ''Qm01'' 65 10000 150 50 ledger_new
       = Inr (1, apply_call by_official
           (CreateDisasterEvent FLOOD ''Kerala'' ''Qm01'' 65 10000 150 50) ledger_new)
   \<and> eventExists 1 (apply_call by_official
        (CreateDisasterEvent FLOOD ''Kerala'' ''Qm01'' 65 10000 150 50) ledger_new)
   \<and> infrastructureDamage (disasterEvents (apply_call by_official
        (CreateDisasterEvent FLOOD ''Kerala'' ''Qm01'' 65 10000 150 50) ledger_new) 1) = 150"
  by (simp add: ledger_new_def by_official_def constructor_def apply_call_def
        createDisasterEvent_def onlyAuthorized_def checked_add_def getSeverityLevel_def
        eventExists_def)

text \<open>
  Claim C6, amended. \<open>createDisasterEvent\<close> rejects every call whose severity score is
  above 100, creating no event (for an authorized caller the rejection is "Invalid
  severity score", a ValidationError). The infrastructure-damage value is not validated:
  a call is accepted exactly when the caller is authorized, the score is at most 100, the
  fingerprint is new and the event counter can be incremented, and the new record stores
  the damage value as given.
\<close>

theorem createDisasterEvent_validation:
  "(\<not> sc \<le> 100 \<longrightarrow>
      isl (createDisasterEvent e t l h sc p d a s)
      \<and> apply_call e (CreateDisasterEvent t l h sc p d a) s = s
      \<and> (onlyAuthorized e s \<longrightarrow>
           createDisasterEvent e t l h sc p d a s = Inl (Revert ''Invalid severity score'')))
   \<and> (\<not> isl (createDisasterEvent e t l h sc p d a s) \<longleftrightarrow>
        onlyAuthorized e s \<and> sc \<le> 100 \<and> \<not> processedImageHashes s h
        \<and> unat (eventCounter s) + 1 < 2 ^ 256)
   \<and> (createDisasterEvent e t l h sc p d a s = Inr (k, s') \<longrightarrow>
        eventExists k s' \<and> severityScore (disasterEvents s' k) = sc
        \<and> infrastructureDamage (disasterEvents s' k) = d)"
proof (intro conjI impI)
  assume "\<not> sc \<le> 100"
  then show "isl (createDisasterEvent e t l h sc p d a s)"
    and "apply_call e (CreateDisasterEvent t l h sc p d a) s = s"
    by (simp_all add: createDisasterEvent_def apply_call_def)
next
  assume "\<not> sc \<le> 100" "onlyAuthorized e s"
  then show "createDisasterEvent e t l h sc p d a s = Inl (Revert ''Invalid severity score'')"
    by (simp add: createDisasterEvent_def)
next
  show "\<not> isl (createDisasterEvent e t l h sc p d a s) \<longleftrightarrow>
        onlyAuthorized e s \<and> sc \<le> 100 \<and> \<not> processedImageHashes s h
        \<and> unat (eventCounter s) + 1 < 2 ^ 256"
    by (simp add: createDisasterEvent_def checked_add_def Let_def)
next
  assume ok: "createDisasterEvent e t l h sc p d a s = Inr (k, s')"
  note r = createDisasterEvent_Inr[OF ok]
  from r have n: "unat (eventCounter s) + 1 < 2 ^ 256" by simp
  from r show "eventExists k s'" by (simp add: eventExists_def succ_not_le_word(2)[OF n])
  from r show "severityScore (disasterEvents s' k) = sc" by simp
  from r show "infrastructureDamage (disasterEvents s' k) = d" by simp
qed

theorem createDisasterEvent_validation_witness:
  "\<not> (101 :: uint256) \<le> 100 \<and> onlyAuthorized by_official ledger_new
   \<and> createDisasterEvent by_official FLOOD ''Kerala'' ''Qm01'' 101 10000 75 50 ledger_new
       = Inl (Revert ''Invalid severity score'')
   \<and> apply_call by_official (CreateDisasterEvent FLOOD ''Kerala'' ''Qm01'' 101 10000 75 50)
       ledger_new = ledger_new
   \<and> createDisasterEvent by_official FLOOD ''Kerala'' ''Qm01'' 65 10000 75 50 ledger_new
       = Inr (1, ledger_reported)
   \<and> eventExists 1 ledger_reported
   \<and> infrastructureDamage (disasterEvents ledger_reported 1) = 75"
proof -
  have h: "\<not> (101 :: uint256) \<le> 100" "onlyAuthorized by_official ledger_new"
    by (simp_all add: ledger_new_def constructor_def onlyAuthorized_def by_official_def)
  have ok: "createDisasterEvent by_official FLOOD ''Kerala'' ''Qm01'' 65 10000 75 50 ledger_new
      = Inr (1, ledger_reported)"
    by (simp add: ledger_reported_eq ledger_new_def by_official_def constructor_def
          createDisasterEvent_def onlyAuthorized_def checked_add_def getSeverityLevel_def)
  have 1: "createDisasterEvent by_official FLOOD ''Kerala'' ''Qm01'' 101 10000 75 50 ledger_new
       = Inl (Revert ''Invalid severity score'')
     \<and> apply_call by_official (CreateDisasterEvent FLOOD ''Kerala'' ''Qm01'' 101 10000 75 50)
       ledger_new = ledger_new"
    using createDisasterEvent_validation[where e = by_official and t = FLOOD
        and l = "''Kerala''" and h = "''Qm01''" and sc = 101 and p = 10000 and d = 75 and a = 50
        and s = ledger_new] h by simp
  have 2: "eventExists 1 ledger_reported
     \<and> infrastructureDamage (disasterEvents ledger_reported 1) = 75"
    using createDisasterEvent_validation[where e = by_official and t = FLOOD
        and l = "''Kerala''" and h = "''Qm01''" and sc = 65 and p = 10000 and d = 75 and a = 50
        and s = ledger_new and k = 1 and s' = ledger_reported] ok by simp
  from h ok 1 2 show ?thesis by simp
qed

subsection \<open>The cap on distributions\<close>

lemma distributed_fund_grows:
  assumes "unat (distributedAmount F) + unat a \<le> unat (totalAmount F)"
  shows "distributedAmount F \<le> distributedAmount (distributed_fund F a)"
    and "totalAmount (distributed_fund F a) = totalAmount F"
proof -
  have "unat (totalAmount F) < 2 ^ 256" using unsigned_less[of "totalAmount F"] by simp
  with assms have "unat (distributedAmount F + a) = unat (distributedAmount F) + unat a"
    by (simp add: unat_add_lem[THEN iffD1])
  then show "distributedAmount F \<le> distributedAmount (distributed_fund F a)"
    by (simp add: distributed_fund_def word_le_nat_alt)
  show "totalAmount (distributed_fund F a) = totalAmount F"
    by (simp add: distributed_fund_def)
qed

lemma fund_step:
  assumes inv: "invariant s"
  shows "distributedAmount (disasterFunds s f)
       \<le> distributedAmount (disasterFunds (apply_call e c s) f)
     \<and> (fundExists f s \<longrightarrow>
          fundExists f (apply_call e c s)
          \<and> totalAmount (disasterFunds (apply_call e c s) f) = totalAmount (disasterFunds s f)
          \<and> (fund_status (disasterFunds s f) = DISTRIBUTED \<longrightarrow>
               fund_status (disasterFunds (apply_call e c s) f) = DISTRIBUTED))"
proof (cases "exec e c s")
  case (Inl err)
  then show ?thesis by (simp add: apply_call_def)
next
  case (Inr s')
  have "distributedAmount (disasterFunds s f) \<le> distributedAmount (disasterFunds s' f)
     \<and> (fundExists f s \<longrightarrow>
          fundExists f s'
          \<and> totalAmount (disasterFunds s' f) = totalAmount (disasterFunds s f)
          \<and> (fund_status (disasterFunds s f) = DISTRIBUTED \<longrightarrow>
               fund_status (disasterFunds s' f) = DISTRIBUTED))"
  proof (cases c)
    case (CreateDisasterEvent t l h sc p d a)
    with Inr obtain j where "createDisasterEvent e t l h sc p d a s = Inr (j, s')"
      by (auto split: sum.splits)
    from createDisasterEvent_Inr[OF this] show ?thesis by (auto simp: fundExists_def)
  next
    case (VerifyDisasterEvent j)
    with Inr verifyDisasterEvent_Inr[of e j s s'] show ?thesis by (auto simp: fundExists_def)
  next
    case (DonateToEvent j p v)
    with Inr donateToEvent_Inr[of e j p v s s'] show ?thesis by (auto simp: fundExists_def)
  next
    case (CreateAndApproveFund j a)
    with Inr have ok: "createAndApproveFund e j a s = Inr s'" by simp
    note r = createAndApproveFund_Inr[OF ok]
    from r have n: "unat (fundCounter s) + 1 < 2 ^ 256" by simp
    show ?thesis
    proof (cases "f = fundCounter s + 1")
      case True
      then have "\<not> fundExists f s" by (simp add: fundExists_def succ_not_le_word[OF n])
      with invariantD(2)[OF inv, of f] have "disasterFunds s f = zero_fund"
        by (simp add: fund_slot_ok_def)
      with \<open>\<not> fundExists f s\<close> show ?thesis by (simp add: zero_fund_def)
    next
      case False
      with r show ?thesis by (auto simp: fundExists_def le_succ_word[OF n])
    qed
  next
    case (DistributeFund g r a)
    with Inr have ok: "distributeFund e g r a s = Inr s'" by simp
    note d = distributeFund_Inr[OF ok]
    show ?thesis
    proof (cases "g = f")
      case True
      with d have le: "unat (distributedAmount (disasterFunds s f)) + unat a
          \<le> unat (totalAmount (disasterFunds s f))" by simp
      from d True distributed_fund_grows[OF le] show ?thesis
        by (auto simp: fundExists_def)
    next
      case False
      with d show ?thesis by (auto simp: fundExists_def)
    qed
  next
    case (AddAuthorizedOfficial a)
    with Inr admin_Inr(1)[of e a s s'] show ?thesis by (auto simp: fundExists_def)
  next
    case (RemoveAuthorizedOfficial a)
    with Inr admin_Inr(2)[of e a s s'] show ?thesis by (auto simp: fundExists_def)
  next
    case (TransferOwnership a)
    with Inr admin_Inr(3)[of e a s s'] show ?thesis by (auto simp: fundExists_def)
  next
    case RenounceOwnership
    with Inr admin_Inr(4)[of e s s'] show ?thesis by (auto simp: fundExists_def)
  next
    case (Receive v)
    with Inr admin_Inr(5)[of v s s'] show ?thesis by (auto simp: fundExists_def)
  qed
  with Inr show ?thesis by (simp add: apply_call_def)
qed

lemma fund_run:
  assumes "invariant s"
  shows "distributedAmount (disasterFunds s f) \<le> distributedAmount (disasterFunds (run s cs) f)
     \<and> (fundExists f s \<longrightarrow>
          fundExists f (run s cs)
          \<and> totalAmount (disasterFunds (run s cs) f) = totalAmount (disasterFunds s f)
          \<and> (fund_status (disasterFunds s f) = DISTRIBUTED \<longrightarrow>
               fund_status (disasterFunds (run s cs) f) = DISTRIBUTED))"
  using assms
proof (induction s cs rule: run.induct)
  case (1 s)
  show ?case by simp
next
  case (2 s e c cs)
  note st = fund_step[OF "2.prems", of f e c]
  note ih = "2.IH"[OF invariant_apply_call[OF "2.prems"]]
  from st ih show ?case by auto
qed

lemma over_cap_rejected:
  assumes "unat (distributedAmount (disasterFunds s f)) + unat a
             > unat (totalAmount (disasterFunds s f))"
  shows "isl (distributeFund e f r a s)"
    and "onlyAuthorized e s \<Longrightarrow> fundExists f s \<Longrightarrow> \<not> entered s \<Longrightarrow>
           fund_status (disasterFunds s f) = APPROVED \<Longrightarrow>
           unat (distributedAmount (disasterFunds s f)) + unat a < 2 ^ 256 \<Longrightarrow>
           distributeFund e f r a s = Inl (Revert ''Insufficient fund balance'')"
proof -
  have *: "\<not> distributedAmount (disasterFunds s f) + a \<le> totalAmount (disasterFunds s f)"
    if "unat (distributedAmount (disasterFunds s f)) + unat a < 2 ^ 256"
    using that assms by (simp add: word_le_nat_alt unat_add_lem[THEN iffD1])
  show "isl (distributeFund e f r a s)"
    using * by (simp add: distributeFund_def Let_def checked_add_def)
  show "distributeFund e f r a s = Inl (Revert ''Insufficient fund balance'')"
    if "onlyAuthorized e s" "fundExists f s" "\<not> entered s"
      "fund_status (disasterFunds s f) = APPROVED"
      "unat (distributedAmount (disasterFunds s f)) + unat a < 2 ^ 256"
    using that *[OF that(5)] by (simp add: distributeFund_def Let_def checked_add_def)
qed

text \<open>
  Claim C1 ends: a distribute call that would push the distributed amount past the total
  fails with InsufficientFundsError. On a pool that is fully distributed the contract
  rejects the call at the status check, with "Fund not approved", before it compares
  amounts; and when the sum of the distributed amount and the requested amount does not
  fit 256 bits the checked addition reverts with a panic before the comparison. Both
  calls are made by the official on the ledger in use, on the pool of total 100000: one
  unit more after all of it has been paid out, and \<open>2^256 - 1\<close>, the largest amount,
  after 60000 have.
\<close>

theorem distributeFund_over_cap_other_errors:
  "reachable ledger_paid \<and> onlyAuthorized by_official ledger_paid \<and> fundExists 1 ledger_paid
   \<and> unat (distributedAmount (disasterFunds ledger_paid 1)) + unat (1 :: uint256)
       > unat (totalAmount (disasterFunds ledger_paid 1))
   \<and> distributeFund by_official 1 7 1 ledger_paid = Inl (Revert ''Fund not approved'')
   \<and> Revert ''Fund not approved'' \<noteq> Revert ''Insufficient fund balance''
   \<and> reachable ledger_partial \<and> onlyAuthorized by_official ledger_partial
   \<and> fundExists 1 ledger_partial
   \<and> unat (distributedAmount (disasterFunds ledger_partial 1)) + unat (115792089237316195423570985008687907853269984665640564039457584007913129639935 :: uint256)
       > unat (totalAmount (disasterFunds ledger_partial 1))
   \<and> distributeFund by_official 1 7
       115792089237316195423570985008687907853269984665640564039457584007913129639935 ledger_partial = Inl (Panic 17)"
proof -
  have r: "reachable ledger_paid" "reachable ledger_partial" by (rule reachable_ledgers)+
  have "onlyAuthorized by_official ledger_paid \<and> fundExists 1 ledger_paid
   \<and> unat (distributedAmount (disasterFunds ledger_paid 1)) + unat (1 :: uint256)
       > unat (totalAmount (disasterFunds ledger_paid 1))
   \<and> distributeFund by_official 1 7 1 ledger_paid = Inl (Revert ''Fund not approved'')"
    by (simp add: ledger_paid_eq by_official_def onlyAuthorized_def fundExists_def
          distributeFund_def)
  moreover have "onlyAuthorized by_official ledger_partial \<and> fundExists 1 ledger_partial
   \<and> unat (distributedAmount (disasterFunds ledger_partial 1)) + unat (115792089237316195423570985008687907853269984665640564039457584007913129639935 :: uint256)
       > unat (totalAmount (disasterFunds ledger_partial 1))
   \<and> distributeFund by_official 1 7
       115792089237316195423570985008687907853269984665640564039457584007913129639935 ledger_partial = Inl (Panic 17)"
    by (simp add: ledger_partial_eq by_official_def onlyAuthorized_def fundExists_def
          distributeFund_def checked_add_def)
  ultimately show ?thesis using r by simp
qed

text \<open>
  Claim C1, amended. In every reachable storage and for every sequence of calls that
  follows (distributions or any others), the distributed amount of a pool does not
  decrease and never exceeds the pool's total; an existing pool has status DISTRIBUTED
  exactly when its distributed amount equals its total, it stays in existence with the
  same total, and once DISTRIBUTED it stays DISTRIBUTED. A distribute call that would
  push the distributed amount past the total always fails and changes nothing. It fails
  with "Insufficient fund balance" (InsufficientFundsError) when the caller is
  authorized, the pool exists with status APPROVED and the sum fits 256 bits; on a
  fully distributed pool it fails with "Fund not approved", and when the sum does not
  fit 256 bits it fails with the arithmetic panic.
\<close>

theorem distributeFund_cap:
  assumes "reachable s"
  shows "distributedAmount (disasterFunds s f) \<le> distributedAmount (disasterFunds (run s cs) f)
     \<and> distributedAmount (disasterFunds (run s cs) f) \<le> totalAmount (disasterFunds (run s cs) f)
     \<and> (fundExists f s \<longrightarrow>
          (fund_status (disasterFunds s f) = DISTRIBUTED
             \<longleftrightarrow> distributedAmount (disasterFunds s f) = totalAmount (disasterFunds s f))
          \<and> fundExists f (run s cs)
          \<and> totalAmount (disasterFunds (run s cs) f) = totalAmount (disasterFunds s f)
          \<and> (fund_status (disasterFunds (run s cs) f) = DISTRIBUTED
             \<longleftrightarrow> distributedAmount (disasterFunds (run s cs) f)
                   = totalAmount (disasterFunds (run s cs) f))
          \<and> (fund_status (disasterFunds s f) = DISTRIBUTED \<longrightarrow>
               fund_status (disasterFunds (run s cs) f) = DISTRIBUTED))
     \<and> (unat (distributedAmount (disasterFunds s f)) + unat a
           > unat (totalAmount (disasterFunds s f)) \<longrightarrow>
          isl (distributeFund e f r a s)
          \<and> apply_call e (DistributeFund f r a) s = s
          \<and> (onlyAuthorized e s \<and> fundExists f s \<longrightarrow>
               distributeFund e f r a s =
                 Inl (if fund_status (disasterFunds s f) = DISTRIBUTED
                      then Revert ''Fund not approved''
                      else if unat (distributedAmount (disasterFunds s f)) + unat a < 2 ^ 256
                      then Revert ''Insufficient fund balance''
                      else Panic 17)))"
proof -
  note inv = reachable_invariant[OF assms]
  note inv' = reachable_invariant[OF reachable_run[OF assms, of cs]]
  note fr = fund_run[OF inv, of f cs]
  have slot: "fund_slot_ok t f \<Longrightarrow>
      distributedAmount (disasterFunds t f) \<le> totalAmount (disasterFunds t f)
      \<and> (fundExists f t \<longrightarrow> (fund_status (disasterFunds t f) = APPROVED
              \<or> fund_status (disasterFunds t f) = DISTRIBUTED)
           \<and> (fund_status (disasterFunds t f) = DISTRIBUTED
             \<longleftrightarrow> distributedAmount (disasterFunds t f) = totalAmount (disasterFunds t f)))" for t
    by (auto simp: fund_slot_ok_def fund_ok_def zero_fund_def split: if_splits)
  note a0 = slot[OF invariantD(2)[OF inv, of f]]
  note a1 = slot[OF invariantD(2)[OF inv', of f]]
  have 1: "distributedAmount (disasterFunds s f) \<le> distributedAmount (disasterFunds (run s cs) f)"
    using fr by simp
  have 2: "distributedAmount (disasterFunds (run s cs) f) \<le> totalAmount (disasterFunds (run s cs) f)"
    using a1 by simp
  have 3: "fundExists f s \<longrightarrow>
          (fund_status (disasterFunds s f) = DISTRIBUTED
             \<longleftrightarrow> distributedAmount (disasterFunds s f) = totalAmount (disasterFunds s f))
          \<and> fundExists f (run s cs)
          \<and> totalAmount (disasterFunds (run s cs) f) = totalAmount (disasterFunds s f)
          \<and> (fund_status (disasterFunds (run s cs) f) = DISTRIBUTED
             \<longleftrightarrow> distributedAmount (disasterFunds (run s cs) f)
                   = totalAmount (disasterFunds (run s cs) f))
          \<and> (fund_status (disasterFunds s f) = DISTRIBUTED \<longrightarrow>
               fund_status (disasterFunds (run s cs) f) = DISTRIBUTED)"
    using fr a0 a1 by blast
  have 4: "isl (distributeFund e f r a s)
          \<and> apply_call e (DistributeFund f r a) s = s
          \<and> (onlyAuthorized e s \<and> fundExists f s \<longrightarrow>
               distributeFund e f r a s =
                 Inl (if fund_status (disasterFunds s f) = DISTRIBUTED
                      then Revert ''Fund not approved''
                      else if unat (distributedAmount (disasterFunds s f)) + unat a < 2 ^ 256
                      then Revert ''Insufficient fund balance''
                      else Panic 17))"
    if over: "unat (distributedAmount (disasterFunds s f)) + unat a
           > unat (totalAmount (disasterFunds s f))"
  proof (intro conjI impI)
    from over_cap_rejected(1)[OF over] show i: "isl (distributeFund e f r a s)" .
    then show "apply_call e (DistributeFund f r a) s = s"
      by (cases "distributeFund e f r a s") (simp_all add: apply_call_def)
    assume au: "onlyAuthorized e s \<and> fundExists f s"
    from invariantD(1)[OF inv] have ne: "\<not> entered s" .
    from au a0 have st: "fund_status (disasterFunds s f) = APPROVED
        \<or> fund_status (disasterFunds s f) = DISTRIBUTED" by blast
    show "distributeFund e f r a s =
                 Inl (if fund_status (disasterFunds s f) = DISTRIBUTED
                      then Revert ''Fund not approved''
                      else if unat (distributedAmount (disasterFunds s f)) + unat a < 2 ^ 256
                      then Revert ''Insufficient fund balance''
                      else Panic 17)"
    proof (cases "fund_status (disasterFunds s f) = DISTRIBUTED")
      case True
      with au ne show ?thesis by (simp add: distributeFund_def Let_def)
    next
      case False
      with st have ap: "fund_status (disasterFunds s f) = APPROVED" by simp
      show ?thesis
      proof (cases "unat (distributedAmount (disasterFunds s f)) + unat a < 2 ^ 256")
        case True
        with over_cap_rejected(2)[OF over, of e r] au ne ap False show ?thesis by simp
      next
        case False
        with au ne ap show ?thesis by (simp add: distributeFund_def Let_def checked_add_def)
      qed
    qed
  qed
  from 1 2 3 4 show ?thesis by blast
qed

theorem distributeFund_cap_witness:
  "reachable ledger_funded \<and> fundExists 1 ledger_funded
   \<and> distributedAmount (disasterFunds ledger_funded 1) \<le> distributedAmount (disasterFunds ledger_paid 1)
   \<and> distributedAmount (disasterFunds ledger_paid 1) \<le> totalAmount (disasterFunds ledger_paid 1)
   \<and> fund_status (disasterFunds ledger_paid 1) = DISTRIBUTED
   \<and> distributedAmount (disasterFunds ledger_paid 1) = totalAmount (disasterFunds ledger_paid 1)
   \<and> reachable ledger_partial \<and> onlyAuthorized by_official ledger_partial
   \<and> fundExists 1 ledger_partial
   \<and> unat (distributedAmount (disasterFunds ledger_partial 1)) + unat (50000 :: uint256)
       > unat (totalAmount (disasterFunds ledger_partial 1))
   \<and> distributeFund by_official 1 7 50000 ledger_partial
       = Inl (Revert ''Insufficient fund balance'')
   \<and> apply_call by_official (DistributeFund 1 7 50000) ledger_partial = ledger_partial
   \<and> reachable ledger_paid \<and> fund_status (disasterFunds ledger_paid 1) = DISTRIBUTED
   \<and> fund_status (disasterFunds (apply_call by_donor (Receive 5) ledger_paid) 1) = DISTRIBUTED"
proof -
  have r: "reachable ledger_funded" "reachable ledger_partial" "reachable ledger_paid"
    by (rule reachable_ledgers)+
  have p: "run ledger_funded [(by_official, DistributeFund 1 7 60000),
      (by_official, DistributeFund 1 7 40000)] = ledger_paid"
    by (simp add: ledger_paid_def ledger_partial_def)
  have q: "run ledger_paid [(by_donor, Receive 5)] = apply_call by_donor (Receive 5) ledger_paid"
    by simp
  have h: "fundExists 1 ledger_funded" "onlyAuthorized by_official ledger_partial"
    "fundExists 1 ledger_partial"
    "unat (distributedAmount (disasterFunds ledger_partial 1)) + unat (50000 :: uint256)
       > unat (totalAmount (disasterFunds ledger_partial 1))"
    "fund_status (disasterFunds ledger_partial 1) = APPROVED"
    "fund_status (disasterFunds ledger_paid 1) = DISTRIBUTED" "fundExists 1 ledger_paid"
    by (simp_all add: ledger_funded_eq ledger_partial_eq ledger_paid_eq fundExists_def
          onlyAuthorized_def by_official_def)
  have 1: "distributedAmount (disasterFunds ledger_funded 1)
        \<le> distributedAmount (disasterFunds ledger_paid 1)
      \<and> distributedAmount (disasterFunds ledger_paid 1) \<le> totalAmount (disasterFunds ledger_paid 1)
      \<and> distributedAmount (disasterFunds ledger_paid 1) = totalAmount (disasterFunds ledger_paid 1)"
    using distributeFund_cap[OF r(1), where f = 1 and cs = "[(by_official, DistributeFund 1 7 60000),
      (by_official, DistributeFund 1 7 40000)]", unfolded p] h by blast
  have 2: "distributeFund by_official 1 7 50000 ledger_partial
       = Inl (Revert ''Insufficient fund balance'')
     \<and> apply_call by_official (DistributeFund 1 7 50000) ledger_partial = ledger_partial"
    using distributeFund_cap[OF r(2), where f = 1 and a = 50000 and e = by_official and r = 7] h
    by (simp add: ledger_partial_eq)
  have 3: "fund_status (disasterFunds (apply_call by_donor (Receive 5) ledger_paid) 1) = DISTRIBUTED"
    using distributeFund_cap[OF r(3), where f = 1 and cs = "[(by_donor, Receive 5)]", unfolded q] h
    by blast
  from r h 1 2 3 show ?thesis by blast
qed

end
